theory Spec2Isabelle
  imports Complex_Main "HOL-Library.Sublist"
begin

section \<open>Data model\<close>

text \<open>
  The apartments table of \<^verbatim>\<open>entities/apartment.entity.ts\<close> and the request objects of
  \<^verbatim>\<open>dto/*.ts\<close>. A TypeScript \<^verbatim>\<open>number\<close> holding an integer column is an \<open>int\<close>, one
  holding a \<^verbatim>\<open>decimal\<close> column is a \<open>rat\<close> (decimals are exact rationals; the rounding of
  IEEE doubles is not modelled, and the columns are read as numbers, as the entity declares
  them), a \<^verbatim>\<open>Date\<close> is a number of milliseconds, a nullable column or an optional property
  is an \<open>option\<close>. Strings are lists of characters. Field names are the source's; \<open>id\<close>
  is \<open>id_pk\<close>, \<open>total\<close> is \<open>total_items\<close>, and the properties of the request objects carry a
  prefix, since a record field is a constant of its own.
\<close>

type_synonym date = nat

record Apartment =
  id_pk :: int
  unitName :: string
  unitNumber :: string
  project :: string
  description :: "string option"
  price :: rat
  bedrooms :: int
  bathrooms :: int
  area :: rat
  location :: "string option"
  images :: "string list option"
  amenities :: "string list option"
  isAvailable :: bool
  slug :: "string option"
  viewCount :: int
  isFeatured :: bool
  contactPhone :: "string option"
  contactEmail :: "string option"
  availableFrom :: "date option"
  leaseDuration :: "int option"
  securityDeposit :: "rat option"
  createdAt :: date
  updatedAt :: date
  deletedAt :: "date option"

text \<open>
  The sort columns and directions that the listing endpoint documents
  (\<^verbatim>\<open>enum: ['price', 'createdAt', 'area', 'bedrooms']\<close>, \<^verbatim>\<open>enum: ['ASC', 'DESC']\<close>). The
  service reads \<open>sortBy\<close> and \<open>sortOrder\<close> from the search request.
\<close>

datatype SortBy = SortPrice | SortCreatedAt | SortArea | SortBedrooms

datatype SortOrder = ASC | DESC

record SearchApartmentDto =
  s_search :: "string option"
  s_project :: "string option"
  s_location :: "string option"
  s_minPrice :: "rat option"
  s_maxPrice :: "rat option"
  s_bedrooms :: "int option"
  s_bathrooms :: "int option"
  s_minArea :: "rat option"
  s_maxArea :: "rat option"
  s_type :: "string option"
  s_furnishing :: "string option"
  s_petFriendly :: "bool option"
  s_sortBy :: "SortBy option"
  s_sortOrder :: "SortOrder option"

text \<open>
  Modelled from the spec: \<^verbatim>\<open>dto/pagination.dto.ts\<close> is not among the sources. The service
  reads its \<open>page\<close> and \<open>limit\<close> (defaults 1 and 10); the spec gives \<open>page \<ge> 1\<close> and
  \<open>limit \<le> 100\<close> as the contract of a listing request.
\<close>

record PaginationDto =
  p_page :: "int option"
  p_limit :: "int option"

record PaginationMetaDto =
  page :: int
  limit :: int
  total_items :: int
  totalPages :: int
  hasNext :: bool
  hasPrev :: bool

record FiltersAppliedDto =
  f_search :: "string option"
  f_project :: "string option"
  f_minPrice :: "rat option"
  f_maxPrice :: "rat option"
  f_bedrooms :: "int option"
  f_bathrooms :: "int option"
  f_sortBy :: SortBy
  f_sortOrder :: SortOrder

record PaginatedApartmentsDto =
  data :: "Apartment list"
  pagination :: PaginationMetaDto
  filters :: FiltersAppliedDto

text \<open>
  The state of the store: the rows of the table in insertion order and the next value of the
  generated primary key.
\<close>

record Store =
  rows :: "Apartment list"
  nextId :: int

section \<open>Text\<close>

text \<open>
  \<^verbatim>\<open>toLowerCase()\<close> on the letters A to Z; any other character is left as it is (the
  model covers ASCII text). \<open>isAlnum\<close> is the character class \<^verbatim>\<open>[a-z0-9]\<close>.
\<close>

definition toLowerChar :: "char \<Rightarrow> char" where
  "toLowerChar c =
     (case map_of (zip ''ABCDEFGHIJKLMNOPQRSTUVWXYZ'' ''abcdefghijklmnopqrstuvwxyz'') c of
        Some l \<Rightarrow> l
      | None \<Rightarrow> c)"

definition toLowerCase :: "string \<Rightarrow> string" where
  "toLowerCase s = map toLowerChar s"

definition isAlnum :: "char \<Rightarrow> bool" where
  "isAlnum c \<longleftrightarrow> c \<in> set ''abcdefghijklmnopqrstuvwxyz0123456789''"

section \<open>The store's query operators\<close>

text \<open>
  The errors of the store: a violated unique index
  (\<^verbatim>\<open>@Index(['unitNumber'], { unique: true })\<close>), and a query option that names a property
  the entity does not have.
\<close>

datatype StoreError = ER_DUP_ENTRY | EntityPropertyNotFoundError string

text \<open>
  \<^verbatim>\<open>Like(p)\<close> is the SQL operator: in the pattern \<open>%\<close> stands for any run of characters,
  \<open>_\<close> for any one character, every other character for itself. Characters are compared
  as the default collation of the store (MySQL 8.0) compares them: without regard to the
  case of a letter. The escape character of the pattern language, the backslash, is not
  modelled: \<open>Like\<close> is the operator on patterns without a backslash. \<open>likeSpecial\<close> holds
  of the characters that are not plain text in a pattern.
\<close>

fun Like :: "string \<Rightarrow> string \<Rightarrow> bool" where
  "Like [] t = (t = [])"
| "Like (p # ps) t =
     (if p = CHR ''%'' then
        (Like ps t \<or> (case t of [] \<Rightarrow> False | c # cs \<Rightarrow> Like (p # ps) cs))
      else (case t of
              [] \<Rightarrow> False
            | c # cs \<Rightarrow> (p = CHR ''_'' \<or> toLowerChar p = toLowerChar c) \<and> Like ps cs))"

definition likeSpecial :: "char \<Rightarrow> bool" where
  "likeSpecial c \<longleftrightarrow> c = CHR ''%'' \<or> c = CHR ''_'' \<or> c = CHR 0x5C"

definition Between :: "rat \<Rightarrow> rat \<Rightarrow> rat \<Rightarrow> bool" where
  "Between lo hi v \<longleftrightarrow> lo \<le> v \<and> v \<le> hi"

definition MoreThanOrEqual :: "rat \<Rightarrow> rat \<Rightarrow> bool" where
  "MoreThanOrEqual lo v \<longleftrightarrow> lo \<le> v"

definition LessThanOrEqual :: "rat \<Rightarrow> rat \<Rightarrow> bool" where
  "LessThanOrEqual hi v \<longleftrightarrow> v \<le> hi"

text \<open>
  \<^verbatim>\<open>order: { column: 'ASC' | 'DESC' }\<close>: the rows sorted on one numeric column. Rows with
  equal keys keep their order in the table.
\<close>

definition orderBy :: "('a \<Rightarrow> rat) \<Rightarrow> SortOrder \<Rightarrow> 'a list \<Rightarrow> 'a list" where
  "orderBy key ord xs =
     (case ord of ASC \<Rightarrow> sort_key key xs | DESC \<Rightarrow> sort_key (\<lambda>r. - key r) xs)"

text \<open>
  \<^verbatim>\<open>skip\<close> and \<^verbatim>\<open>take\<close>: the rows from offset \<open>skip\<close> on, at most \<open>take\<close> of them. A
  negative offset or count is not a query the store answers; the model reads it as 0.
\<close>

definition skipTake :: "int \<Rightarrow> int \<Rightarrow> 'a list \<Rightarrow> 'a list" where
  "skipTake skip tk xs = take (nat tk) (drop (nat skip) xs)"

section \<open>ApartmentsService.findAllPaginated\<close>

text \<open>
  \<^verbatim>\<open>if (search)\<close> and \<^verbatim>\<open>if (project)\<close> are JavaScript truth tests: an absent and an
  empty string both leave the column unconstrained.
\<close>

definition likeCondition :: "string option \<Rightarrow> string \<Rightarrow> bool" where
  "likeCondition f v =
     (case f of
        None \<Rightarrow> True
      | Some s \<Rightarrow> (if s = [] then True else Like (''%'' @ s @ ''%'') v))"

definition priceCondition :: "rat option \<Rightarrow> rat option \<Rightarrow> rat \<Rightarrow> bool" where
  "priceCondition minPrice maxPrice v =
     (case (minPrice, maxPrice) of
        (Some lo, Some hi) \<Rightarrow> Between lo hi v
      | (Some lo, None) \<Rightarrow> MoreThanOrEqual lo v
      | (None, Some hi) \<Rightarrow> LessThanOrEqual hi v
      | (None, None) \<Rightarrow> True)"

definition equalCondition :: "int option \<Rightarrow> int \<Rightarrow> bool" where
  "equalCondition f v = (case f of None \<Rightarrow> True | Some n \<Rightarrow> v = n)"

definition whereConditions :: "SearchApartmentDto \<Rightarrow> Apartment \<Rightarrow> bool" where
  "whereConditions searchDto r \<longleftrightarrow>
     isAvailable r \<and> deletedAt r = None
     \<and> likeCondition (s_search searchDto) (unitName r)
     \<and> likeCondition (s_project searchDto) (project r)
     \<and> priceCondition (s_minPrice searchDto) (s_maxPrice searchDto) (price r)
     \<and> equalCondition (s_bedrooms searchDto) (bedrooms r)
     \<and> equalCondition (s_bathrooms searchDto) (bathrooms r)"

definition sortColumn :: "SortBy \<Rightarrow> Apartment \<Rightarrow> rat" where
  "sortColumn sortBy r =
     (case sortBy of
        SortPrice \<Rightarrow> price r
      | SortCreatedAt \<Rightarrow> of_nat (createdAt r)
      | SortArea \<Rightarrow> area r
      | SortBedrooms \<Rightarrow> of_int (bedrooms r))"

text \<open>
  \<^verbatim>\<open>Math.ceil(total / limit)\<close>. (For \<open>limit = 0\<close> JavaScript gives \<^verbatim>\<open>Infinity\<close> or
  \<^verbatim>\<open>NaN\<close>, which the model does not have; the division is only read for \<open>limit \<ge> 1\<close>.)
\<close>

definition ceilDiv :: "int \<Rightarrow> int \<Rightarrow> int" where
  "ceilDiv n d = \<lceil>rat_of_int n / rat_of_int d\<rceil>"

text \<open>
  The options of a \<^verbatim>\<open>findAndCount\<close>. The entity declares columns only: it has no relation.
  \<^verbatim>\<open>findAndCount\<close> rejects a query that asks for a relation the entity does not have;
  otherwise it answers the page of rows and the number of all rows that match.
\<close>

record FindManyOptions =
  fo_where :: "Apartment \<Rightarrow> bool"
  fo_orderColumn :: SortBy
  fo_orderDirection :: SortOrder
  fo_skip :: int
  fo_take :: int
  fo_relations :: "string list"

definition entityRelations :: "string list" where
  "entityRelations = []"

definition findAndCount :: "FindManyOptions \<Rightarrow> Store \<Rightarrow> StoreError + (Apartment list \<times> int)" where
  "findAndCount options st =
     (case filter (\<lambda>rel. rel \<notin> set entityRelations) (fo_relations options) of
        rel # others \<Rightarrow> Inl (EntityPropertyNotFoundError rel)
      | [] \<Rightarrow>
          (let matching = filter (fo_where options) (rows st)
           in Inr (skipTake (fo_skip options) (fo_take options)
                     (orderBy (sortColumn (fo_orderColumn options)) (fo_orderDirection options)
                        matching),
                   int (length matching))))"

text \<open>
  \<open>findAllPaginated\<close> in three steps: the options it builds (\<open>findOptions\<close>), the call of
  \<^verbatim>\<open>findAndCount\<close>, and the response it builds from the answer (\<open>paginated\<close>). The call
  asks for \<^verbatim>\<open>relations: ['reviews']\<close>; an error of the store leaves the service as it is.
\<close>

definition pageOf :: "PaginationDto \<Rightarrow> int" where
  "pageOf paginationDto = (case p_page paginationDto of None \<Rightarrow> 1 | Some n \<Rightarrow> n)"

definition limitOf :: "PaginationDto \<Rightarrow> int" where
  "limitOf paginationDto = (case p_limit paginationDto of None \<Rightarrow> 10 | Some n \<Rightarrow> n)"

definition sortByOf :: "SearchApartmentDto \<Rightarrow> SortBy" where
  "sortByOf searchDto = (case s_sortBy searchDto of None \<Rightarrow> SortCreatedAt | Some c \<Rightarrow> c)"

definition sortOrderOf :: "SearchApartmentDto \<Rightarrow> SortOrder" where
  "sortOrderOf searchDto = (case s_sortOrder searchDto of None \<Rightarrow> DESC | Some d \<Rightarrow> d)"

definition findOptions :: "SearchApartmentDto \<Rightarrow> PaginationDto \<Rightarrow> FindManyOptions" where
  "findOptions searchDto paginationDto =
     \<lparr> fo_where = whereConditions searchDto,
       fo_orderColumn = sortByOf searchDto,
       fo_orderDirection = sortOrderOf searchDto,
       fo_skip = (pageOf paginationDto - 1) * limitOf paginationDto,
       fo_take = limitOf paginationDto,
       fo_relations = [''reviews''] \<rparr>"

definition paginated ::
  "SearchApartmentDto \<Rightarrow> PaginationDto \<Rightarrow> Apartment list \<times> int \<Rightarrow> PaginatedApartmentsDto" where
  "paginated searchDto paginationDto answer =
     (case answer of (apartments, tot) \<Rightarrow>
        (let pg = pageOf paginationDto;
             lmt = limitOf paginationDto;
             pages = ceilDiv tot lmt
         in \<lparr> data = apartments,
              pagination = \<lparr> page = pg, limit = lmt, total_items = tot, totalPages = pages,
                             hasNext = (pg < pages), hasPrev = (pg > 1) \<rparr>,
              filters = \<lparr> f_search = s_search searchDto, f_project = s_project searchDto,
                          f_minPrice = s_minPrice searchDto, f_maxPrice = s_maxPrice searchDto,
                          f_bedrooms = s_bedrooms searchDto, f_bathrooms = s_bathrooms searchDto,
                          f_sortBy = sortByOf searchDto,
                          f_sortOrder = sortOrderOf searchDto \<rparr> \<rparr>))"

definition findAllPaginated ::
  "SearchApartmentDto \<Rightarrow> PaginationDto \<Rightarrow> Store \<Rightarrow> StoreError + PaginatedApartmentsDto" where
  "findAllPaginated searchDto paginationDto st =
     (case findAndCount (findOptions searchDto paginationDto) st of
        Inl e \<Rightarrow> Inl e
      | Inr answer \<Rightarrow> Inr (paginated searchDto paginationDto answer))"

section \<open>The table and single-record operations\<close>

datatype HttpStatus = NOT_FOUND | CONFLICT | INTERNAL_SERVER_ERROR

record CreateApartmentDto =
  c_unitName :: string
  c_unitNumber :: string
  c_project :: string
  c_description :: "string option"
  c_price :: rat
  c_bedrooms :: int
  c_bathrooms :: int
  c_area :: rat
  c_location :: "string option"
  c_images :: "string list option"
  c_amenities :: "string list option"
  c_isAvailable :: "bool option"

text \<open>
  Modelled from the spec: \<^verbatim>\<open>dto/update-apartment.dto.ts\<close> is not among the sources. The spec
  calls the body of an update "partial fields" and the operation a "field-level partial
  overwrite" of the creation fields: every property of \<open>CreateApartmentDto\<close>, optional.
\<close>

record UpdateApartmentDto =
  u_unitName :: "string option"
  u_unitNumber :: "string option"
  u_project :: "string option"
  u_description :: "string option"
  u_price :: "rat option"
  u_bedrooms :: "int option"
  u_bathrooms :: "int option"
  u_area :: "rat option"
  u_location :: "string option"
  u_images :: "string list option"
  u_amenities :: "string list option"
  u_isAvailable :: "bool option"

subsection \<open>generateSlug\<close>

text \<open>\<^verbatim>\<open>.replace(/[^a-z0-9]+/g, '-')\<close>: each maximal run outside the class becomes one dash.\<close>

function replaceRuns :: "string \<Rightarrow> string" where
  "replaceRuns [] = []"
| "replaceRuns (c # cs) =
     (if isAlnum c then c # replaceRuns cs
      else CHR ''-'' # replaceRuns (dropWhile (\<lambda>d. \<not> isAlnum d) cs))"
  by pat_completeness auto
termination
  by (relation "measure length") (auto simp: le_imp_less_Suc length_dropWhile_le)

text \<open>\<^verbatim>\<open>.replace(/(^-|-$)/g, '')\<close>: a dash at the start and a dash at the end are removed.\<close>

definition replaceEdges :: "string \<Rightarrow> string" where
  "replaceEdges s =
     (let s1 = (case s of [] \<Rightarrow> [] | c # cs \<Rightarrow> if c = CHR ''-'' then cs else s)
      in if s1 \<noteq> [] \<and> last s1 = CHR ''-'' then butlast s1 else s1)"

definition generateSlug :: "string \<Rightarrow> string \<Rightarrow> string" where
  "generateSlug unitName' unitNumber' =
     (let combined = unitName' @ ''-'' @ unitNumber'
      in replaceEdges (replaceRuns (toLowerCase combined)))"

subsection \<open>Repository primitives\<close>

text \<open>
  \<^verbatim>\<open>save\<close> of a new entity: the \<^verbatim>\<open>@BeforeInsert\<close> hooks and the generated columns fill
  in the key and the timestamps; the unique index on \<open>unitNumber\<close> covers every row of the
  table, soft-deleted ones too.
\<close>

definition save :: "Apartment \<Rightarrow> date \<Rightarrow> Store \<Rightarrow> StoreError + (Apartment \<times> Store)" where
  "save a now st =
     (if unitNumber a \<in> set (map unitNumber (rows st)) then Inl ER_DUP_ENTRY
      else (let saved = a\<lparr> id_pk := nextId st, createdAt := now, updatedAt := now \<rparr>
            in Inr (saved, st\<lparr> rows := rows st @ [saved], nextId := nextId st + 1 \<rparr>)))"

text \<open>
  \<^verbatim>\<open>repository.update(id, partial)\<close>: the columns named are written in the row with that
  key. \<open>updatedAt\<close> is the \<^verbatim>\<open>@UpdateDateColumn\<close> of the entity: every update of a row sets
  it to the time of the write, whether the caller names it or not.
\<close>

definition updateWhereId :: "int \<Rightarrow> (Apartment \<Rightarrow> Apartment) \<Rightarrow> date \<Rightarrow> Store \<Rightarrow> Store" where
  "updateWhereId i f now st =
     st\<lparr> rows := map (\<lambda>r. if id_pk r = i then (f r)\<lparr> updatedAt := now \<rparr> else r) (rows st) \<rparr>"

text \<open>\<^verbatim>\<open>repository.increment({ id }, 'viewCount', 1)\<close>: an update of the rows with that key.\<close>

definition incrementViewCount :: "int \<Rightarrow> date \<Rightarrow> Store \<Rightarrow> Store" where
  "incrementViewCount i now st =
     updateWhereId i (\<lambda>r. r\<lparr> viewCount := viewCount r + 1 \<rparr>) now st"

subsection \<open>ApartmentsService\<close>

definition findOneWithDetails :: "int \<Rightarrow> Store \<Rightarrow> Apartment option" where
  "findOneWithDetails i st =
     find (\<lambda>r. id_pk r = i \<and> isAvailable r \<and> deletedAt r = None) (rows st)"

text \<open>
  \<^verbatim>\<open>repository.create({ ...dto, slug, viewCount })\<close>: an entity with the properties of the
  request; \<open>setDefaults\<close> supplies \<open>isAvailable\<close> and \<open>isFeatured\<close> where they are
  undefined, and every column the request cannot name is null.
\<close>

definition repositoryCreate :: "CreateApartmentDto \<Rightarrow> string \<Rightarrow> int \<Rightarrow> Apartment" where
  "repositoryCreate dto slug' viewCount' =
     \<lparr> id_pk = 0,
       unitName = c_unitName dto,
       unitNumber = c_unitNumber dto,
       project = c_project dto,
       description = c_description dto,
       price = c_price dto,
       bedrooms = c_bedrooms dto,
       bathrooms = c_bathrooms dto,
       area = c_area dto,
       location = c_location dto,
       images = c_images dto,
       amenities = c_amenities dto,
       isAvailable = (case c_isAvailable dto of None \<Rightarrow> True | Some b \<Rightarrow> b),
       slug = Some slug',
       viewCount = viewCount',
       isFeatured = False,
       contactPhone = None, contactEmail = None, availableFrom = None,
       leaseDuration = None, securityDeposit = None,
       createdAt = 0, updatedAt = 0, deletedAt = None \<rparr>"

definition create :: "CreateApartmentDto \<Rightarrow> date \<Rightarrow> Store \<Rightarrow> StoreError + (Apartment \<times> Store)" where
  "create createApartmentDto now st =
     (let apartment =
            repositoryCreate createApartmentDto
              (generateSlug (c_unitName createApartmentDto) (c_unitNumber createApartmentDto)) 0
      in save apartment now st)"

definition overwrite :: "'a option \<Rightarrow> 'a \<Rightarrow> 'a" where
  "overwrite v old = (case v of None \<Rightarrow> old | Some new \<Rightarrow> new)"

definition overwriteNullable :: "'a option \<Rightarrow> 'a option \<Rightarrow> 'a option" where
  "overwriteNullable v old = (case v of None \<Rightarrow> old | Some new \<Rightarrow> Some new)"

text \<open>The column assignments of \<^verbatim>\<open>{ ...updateApartmentDto, updatedAt: new Date() }\<close>.\<close>

definition updateColumns :: "UpdateApartmentDto \<Rightarrow> date \<Rightarrow> Apartment \<Rightarrow> Apartment" where
  "updateColumns dto now r =
     r\<lparr> unitName := overwrite (u_unitName dto) (unitName r),
        unitNumber := overwrite (u_unitNumber dto) (unitNumber r),
        project := overwrite (u_project dto) (project r),
        description := overwriteNullable (u_description dto) (description r),
        price := overwrite (u_price dto) (price r),
        bedrooms := overwrite (u_bedrooms dto) (bedrooms r),
        bathrooms := overwrite (u_bathrooms dto) (bathrooms r),
        area := overwrite (u_area dto) (area r),
        location := overwriteNullable (u_location dto) (location r),
        images := overwriteNullable (u_images dto) (images r),
        amenities := overwriteNullable (u_amenities dto) (amenities r),
        isAvailable := overwrite (u_isAvailable dto) (isAvailable r),
        updatedAt := now \<rparr>"

text \<open>
  \<open>update\<close> writes first and looks the record up afterwards. The write is refused by the
  unique index when it would give the row a \<open>unitNumber\<close> that another row has.
\<close>

definition duplicateUnitNumber :: "int \<Rightarrow> UpdateApartmentDto \<Rightarrow> Store \<Rightarrow> bool" where
  "duplicateUnitNumber i dto st =
     (case u_unitNumber dto of
        None \<Rightarrow> False
      | Some u \<Rightarrow> list_ex (\<lambda>r. id_pk r = i) (rows st)
                  \<and> list_ex (\<lambda>r. id_pk r \<noteq> i \<and> unitNumber r = u) (rows st))"

definition update ::
  "int \<Rightarrow> UpdateApartmentDto \<Rightarrow> date \<Rightarrow> Store \<Rightarrow> StoreError + (Apartment option \<times> Store)" where
  "update i updateApartmentDto now st =
     (if duplicateUnitNumber i updateApartmentDto st then Inl ER_DUP_ENTRY
      else (let st' = updateWhereId i (updateColumns updateApartmentDto now) now st
            in Inr (findOneWithDetails i st', st')))"

definition softDelete :: "int \<Rightarrow> date \<Rightarrow> Store \<Rightarrow> bool \<times> Store" where
  "softDelete i now st =
     (case findOneWithDetails i st of
        None \<Rightarrow> (False, st)
      | Some apartment \<Rightarrow>
          (True, updateWhereId i (\<lambda>r. r\<lparr> isAvailable := False, deletedAt := Some now \<rparr>) now st))"

definition findSimilar :: "int \<Rightarrow> int \<Rightarrow> Store \<Rightarrow> Apartment list" where
  "findSimilar apartmentId lmt st =
     (case findOneWithDetails apartmentId st of
        None \<Rightarrow> []
      | Some apartment \<Rightarrow>
          (let priceRange = price apartment * (2 / 10)
           in skipTake 0 lmt
                (orderBy (\<lambda>r. of_int (viewCount r)) DESC
                   (filter (\<lambda>r. id_pk r \<noteq> apartmentId
                                \<and> bedrooms r = bedrooms apartment
                                \<and> Between (price apartment - priceRange)
                                           (price apartment + priceRange) (price r)
                                \<and> isAvailable r \<and> deletedAt r = None)
                      (rows st)))))"

subsection \<open>ApartmentsService.getStatistics\<close>

record ProjectStatsDto =
  ps_project :: string
  ps_count :: int
  ps_averagePrice :: rat

record BedroomDistributionDto =
  bd_bedrooms :: int
  bd_count :: int

record PriceRangeDto =
  pr_min :: rat
  pr_max :: rat

record ApartmentStatsDto =
  totalApartments :: int
  availableApartments :: int
  unavailableApartments :: int
  averagePrice :: rat
  priceRange :: PriceRangeDto
  projectStats :: "ProjectStatsDto list"
  bedroomDistribution :: "BedroomDistributionDto list"
  lastUpdated :: date









section \<open>ApartmentsController\<close>

record FindOneResponse =
  apartment :: Apartment
  similarApartments :: "Apartment list"

text \<open>
  \<open>findAll\<close> of the controller (\<^verbatim>\<open>GET /apartments\<close>): an error of the service is answered
  with status 500.
\<close>

definition controller_findAll ::
  "SearchApartmentDto \<Rightarrow> PaginationDto \<Rightarrow> Store \<Rightarrow> HttpStatus + PaginatedApartmentsDto" where
  "controller_findAll searchDto paginationDto st =
     (case findAllPaginated searchDto paginationDto st of
        Inl e \<Rightarrow> Inl INTERNAL_SERVER_ERROR
      | Inr result \<Rightarrow> Inr result)"

text \<open>
  \<open>findOne\<close> of the controller (\<^verbatim>\<open>GET /apartments/:id\<close>): look the record up, count the view
  (at the time \<open>now\<close>), attach three similar records. The record in the response is the one
  read before the increment (\<^verbatim>\<open>viewCount: apartment.viewCount || 0\<close> leaves a number as it
  is).
\<close>

definition controller_findOne ::
  "int \<Rightarrow> date \<Rightarrow> Store \<Rightarrow> (HttpStatus + FindOneResponse) \<times> Store" where
  "controller_findOne i now st =
     (case findOneWithDetails i st of
        None \<Rightarrow> (Inl NOT_FOUND, st)
      | Some found \<Rightarrow>
          (let st' = incrementViewCount i now st
           in (Inr \<lparr> apartment = found, similarApartments = findSimilar i 3 st' \<rparr>, st')))"

text \<open>
  \<open>remove\<close> of the controller (\<^verbatim>\<open>DELETE /apartments/:id\<close>). The answer carries a timestamp
  of its own, read after the service has returned.
\<close>

definition controller_remove ::
  "int \<Rightarrow> date \<Rightarrow> date \<Rightarrow> Store \<Rightarrow> (HttpStatus + date) \<times> Store" where
  "controller_remove i now answered st =
     (case softDelete i now st of
        (False, st') \<Rightarrow> (Inl NOT_FOUND, st')
      | (True, st') \<Rightarrow> (Inr answered, st'))"

section \<open>ApartmentsService.seedDatabase\<close>

definition sampleApartments :: "(CreateApartmentDto \<times> int) list" where
  "sampleApartments =
     [(\<lparr> c_unitName = ''Luxury Studio A1'', c_unitNumber = ''A1-001'',
         c_project = ''Marina Heights'',
         c_description = Some ''Modern studio apartment with stunning marina views, floor-to-ceiling windows, and premium finishes throughout.'',
         c_price = 1200, c_bedrooms = 1, c_bathrooms = 1, c_area = 455 / 10,
         c_location = Some ''Downtown Marina District'',
         c_images = Some [''https://images.unsplash.com/photo-1560448204-e02f11c3d0e2?w=800'',
                          ''https://images.unsplash.com/photo-1560185007-5f0bb1866cab?w=800'',
                          ''https://images.unsplash.com/photo-1560185009-5bf9f2849488?w=800''],
         c_amenities = Some [''Pool'', ''Gym'', ''Parking'', ''Security'', ''24/7 Concierge'',
                             ''Rooftop Terrace''],
         c_isAvailable = Some True \<rparr>, 45),
      (\<lparr> c_unitName = ''Executive Suite B2'', c_unitNumber = ''B2-105'',
         c_project = ''Garden Residences'',
         c_description = Some ''Spacious family apartment with private garden access, modern kitchen, and luxury amenities.'',
         c_price = 2500, c_bedrooms = 3, c_bathrooms = 2, c_area = 120,
         c_location = Some ''Green Valley'',
         c_images = Some [''https://images.unsplash.com/photo-1556020685-ae41abfc9365?w=800'',
                          ''https://images.unsplash.com/photo-1556020689-f83fd73b6a0e?w=800'',
                          ''https://images.unsplash.com/photo-1556020700-c4df7b062c2a?w=800''],
         c_amenities = Some [''Garden'', ''Playground'', ''Parking'', ''Storage'', ''Pet-Friendly'',
                             ''Balcony''],
         c_isAvailable = Some True \<rparr>, 32),
      (\<lparr> c_unitName = ''Penthouse Premium'', c_unitNumber = ''P1-001'',
         c_project = ''Sky Tower'',
         c_description = Some ''Luxurious penthouse with panoramic city views, private elevator access, and premium amenities.'',
         c_price = 4500, c_bedrooms = 4, c_bathrooms = 3, c_area = 200,
         c_location = Some ''City Center'',
         c_images = Some [''https://images.unsplash.com/photo-1545324418-cc1a3fa10c00?w=800'',
                          ''https://images.unsplash.com/photo-1545324418-5d2d1e1b1e90?w=800''],
         c_amenities = Some [''Private Elevator'', ''Roof Garden'', ''Wine Cellar'',
                             ''Home Theater'', ''Spa'', ''Valet Parking''],
         c_isAvailable = Some True \<rparr>, 78),
      (\<lparr> c_unitName = ''Cozy One Bedroom'', c_unitNumber = ''C1-204'',
         c_project = ''Urban Living'',
         c_description = Some ''Perfect starter apartment with modern amenities and great location near public transportation.'',
         c_price = 950, c_bedrooms = 1, c_bathrooms = 1, c_area = 55,
         c_location = Some ''Midtown'',
         c_images = Some [''https://images.unsplash.com/photo-1502672260266-1c1ef2d93688?w=800'',
                          ''https://images.unsplash.com/photo-1502672023488-70e25813eb80?w=800''],
         c_amenities = Some [''Laundry'', ''Fitness Center'', ''Parking'', ''High-Speed Internet''],
         c_isAvailable = Some True \<rparr>, 23),
      (\<lparr> c_unitName = ''Family Haven'', c_unitNumber = ''F2-301'',
         c_project = ''Sunset Gardens'',
         c_description = Some ''Spacious two-bedroom apartment perfect for small families, featuring an open floor plan and modern kitchen.'',
         c_price = 1800, c_bedrooms = 2, c_bathrooms = 2, c_area = 85,
         c_location = Some ''Suburban District'',
         c_images = Some [''https://images.unsplash.com/photo-1493809842364-78817add7ffb?w=800'',
                          ''https://images.unsplash.com/photo-1493809842364-78817add7ff1?w=800''],
         c_amenities = Some [''Playground'', ''Pool'', ''BBQ Area'', ''Parking'', ''Storage'',
                             ''Pet Park''],
         c_isAvailable = Some True \<rparr>, 19)]"

fun seedLoop :: "(CreateApartmentDto \<times> int) list \<Rightarrow> date \<Rightarrow> Store \<Rightarrow> StoreError + Store" where
  "seedLoop [] now st = Inr st"
| "seedLoop ((apartmentData, views) # rest) now st =
     (case save (repositoryCreate apartmentData
                   (generateSlug (c_unitName apartmentData) (c_unitNumber apartmentData)) views)
                now st of
        Inl e \<Rightarrow> Inl e
      | Inr (saved, st') \<Rightarrow> seedLoop rest now st')"

definition seedDatabase :: "date \<Rightarrow> Store \<Rightarrow> StoreError + Store" where
  "seedDatabase now st =
     (if length (rows st) > 0 then Inr st else seedLoop sampleApartments now st)"

text \<open>An empty table, and the table after seeding it.\<close>

definition emptyStore :: Store where
  "emptyStore = \<lparr> rows = [], nextId = 1 \<rparr>"

definition seeded :: Store where
  "seeded = (case seedDatabase 0 emptyStore of Inl e \<Rightarrow> emptyStore | Inr st \<Rightarrow> st)"

text \<open>The listing request without any query parameter.\<close>

definition noFilters :: SearchApartmentDto where
  "noFilters = \<lparr> s_search = None, s_project = None, s_location = None, s_minPrice = None,
     s_maxPrice = None, s_bedrooms = None, s_bathrooms = None, s_minArea = None,
     s_maxArea = None, s_type = None, s_furnishing = None, s_petFriendly = None,
     s_sortBy = None, s_sortOrder = None \<rparr>"

text \<open>A sixth apartment, whose unit number has an underscore, created in the seeded table.\<close>

definition gardenLoft :: CreateApartmentDto where
  "gardenLoft = \<lparr> c_unitName = ''Garden Loft'', c_unitNumber = ''G_7'',
     c_project = ''Garden Residences'', c_description = None,
     c_price = 1500, c_bedrooms = 2, c_bathrooms = 1, c_area = 70,
     c_location = None, c_images = None, c_amenities = None, c_isAvailable = None \<rparr>"

definition seededWithLoft :: Store where
  "seededWithLoft = (case create gardenLoft 1 seeded of Inl e \<Rightarrow> seeded | Inr (a, st) \<Rightarrow> st)"

text \<open>
  Two properties of a table. The generated primary key: no two rows share an \<open>id\<close>, and
  the next key is larger than every key in use. The soft-delete invariant of the data model:
  a row with a deletion time is not available.
\<close>

definition primaryKey :: "Store \<Rightarrow> bool" where
  "primaryKey st \<longleftrightarrow> distinct (map id_pk (rows st)) \<and> list_all (\<lambda>r. id_pk r < nextId st) (rows st)"

definition softDeleteInvariant :: "Store \<Rightarrow> bool" where
  "softDeleteInvariant st \<longleftrightarrow> list_all (\<lambda>r. deletedAt r \<noteq> None \<longrightarrow> \<not> isAvailable r) (rows st)"

text \<open>The update request with an empty body.\<close>

definition noChanges :: UpdateApartmentDto where
  "noChanges = \<lparr> u_unitName = None, u_unitNumber = None, u_project = None, u_description = None,
     u_price = None, u_bedrooms = None, u_bathrooms = None, u_area = None, u_location = None,
     u_images = None, u_amenities = None, u_isAvailable = None \<rparr>"


text \<open>
  The slug as the data model describes it: the text is lower-cased, runs of non-alphanumeric
  characters are separators, and there is no separator at either end. That is: the maximal
  alphanumeric runs of the lower-cased text, joined by single dashes.
\<close>

function alnumWords :: "string \<Rightarrow> string list" where
  "alnumWords [] = []"
| "alnumWords (c # cs) =
     (if isAlnum c then (c # takeWhile isAlnum cs) # alnumWords (dropWhile isAlnum cs)
      else alnumWords cs)"
  by pat_completeness auto
termination
  by (relation "measure length") (auto simp: le_imp_less_Suc length_dropWhile_le)

fun joinDash :: "string list \<Rightarrow> string" where
  "joinDash [] = []"
| "joinDash [w] = w"
| "joinDash (w # v # ws) = w @ ''-'' @ joinDash (v # ws)"

definition specSlug :: "string \<Rightarrow> string \<Rightarrow> string" where
  "specSlug unitName' unitNumber' =
     joinDash (alnumWords (toLowerCase (unitName' @ ''-'' @ unitNumber')))"

text \<open>The dash that \<open>replaceRuns\<close> leaves at the end of a text that ends outside the class.\<close>

definition trailing :: "string \<Rightarrow> string" where
  "trailing s = (if s \<noteq> [] \<and> \<not> isAlnum (last s) then ''-'' else [])"

section \<open>Pagination\<close>

lemma ceilDiv_bounds:
  assumes "1 \<le> d"
  shows "(ceilDiv n d - 1) * d < n" and "n \<le> ceilDiv n d * d"
proof -
  have dpos: "0 < rat_of_int d" using assms by simp
  let ?q = "rat_of_int n / rat_of_int d"
  have "of_int (ceilDiv n d) - 1 < ?q" unfolding ceilDiv_def by linarith
  then have "(of_int (ceilDiv n d) - 1) * rat_of_int d < rat_of_int n"
    using dpos by (simp add: pos_less_divide_eq)
  then have "rat_of_int ((ceilDiv n d - 1) * d) < rat_of_int n" by simp
  then show "(ceilDiv n d - 1) * d < n" by (simp only: of_int_less_iff)
  have "?q \<le> of_int (ceilDiv n d)" unfolding ceilDiv_def by linarith
  then have "rat_of_int n \<le> of_int (ceilDiv n d) * rat_of_int d"
    using dpos by (simp add: pos_divide_le_eq)
  then have "rat_of_int n \<le> rat_of_int (ceilDiv n d * d)" by simp
  then show "n \<le> ceilDiv n d * d" by (simp only: of_int_le_iff)
qed

lemma findAndCount_reviews:
  "findAndCount (findOptions dto pg) st = Inl (EntityPropertyNotFoundError ''reviews'')"
  by (simp add: findAndCount_def findOptions_def entityRelations_def)

text \<open>
  C2. No listing request is answered with pagination metadata. The query that
  \<open>findAllPaginated\<close> builds asks for the relation \<open>reviews\<close>, which the entity does not
  have: for every request and every table the store rejects the query, \<open>findAllPaginated\<close>
  fails with that error, and \<open>GET /apartments\<close> answers with status 500.
\<close>

theorem findAllPaginated_rejects:
  "findAllPaginated dto pg st = Inl (EntityPropertyNotFoundError ''reviews'')
   \<and> controller_findAll dto pg st = Inl INTERNAL_SERVER_ERROR"
  by (simp add: findAllPaginated_def controller_findAll_def findAndCount_reviews)

text \<open>
  What the code computes once the store answers. A query that asks for no relation is
  answered with the \<open>take\<close> rows from offset \<open>skip\<close> of the sorted matching rows and with
  the number of all matching rows. From an answer with \<open>tot\<close> matching rows, for a request
  whose limit is at least 1, the service builds the metadata \<open>m\<close>: the page and the limit
  of the request, \<open>total = tot\<close>, \<open>totalPages\<close> the ceiling of \<open>tot / limit\<close> (the least
  number of pages of \<open>limit\<close> rows that hold \<open>tot\<close> rows), \<open>hasNext\<close> as \<open>page < totalPages\<close>
  and \<open>hasPrev\<close> as \<open>page > 1\<close>.
\<close>

lemma findAndCount_no_relations:
  assumes "fo_relations options = []"
  shows "findAndCount options st
           = Inr (take (nat (fo_take options)) (drop (nat (fo_skip options))
                    (orderBy (sortColumn (fo_orderColumn options)) (fo_orderDirection options)
                       (filter (fo_where options) (rows st)))),
                  int (length (filter (fo_where options) (rows st))))"
  using assms by (simp add: findAndCount_def Let_def skipTake_def)

lemma paginated_metadata:
  assumes m: "m = pagination (paginated dto pg (apartments, tot))"
      and lim: "1 \<le> limitOf pg"
  shows "page m = pageOf pg \<and> limit m = limitOf pg \<and> total_items m = tot
       \<and> totalPages m = \<lceil>rat_of_int tot / rat_of_int (limitOf pg)\<rceil>
       \<and> (totalPages m - 1) * limitOf pg < tot \<and> tot \<le> totalPages m * limitOf pg
       \<and> hasNext m = (pageOf pg < totalPages m)
       \<and> hasPrev m = (pageOf pg > 1)
       \<and> (pageOf pg = 1 \<and> totalPages m = 1 \<longrightarrow> \<not> hasNext m \<and> \<not> hasPrev m)"
proof -
  have tp: "totalPages m = ceilDiv tot (limitOf pg)"
    by (simp add: m paginated_def Let_def)
  have b: "(totalPages m - 1) * limitOf pg < tot" "tot \<le> totalPages m * limitOf pg"
    using ceilDiv_bounds[OF lim, of tot] by (simp_all add: tp)
  have rest: "page m = pageOf pg" "limit m = limitOf pg" "total_items m = tot"
     "hasNext m = (pageOf pg < totalPages m)" "hasPrev m = (pageOf pg > 1)"
    by (simp_all add: m paginated_def Let_def)
  have cd: "totalPages m = \<lceil>rat_of_int tot / rat_of_int (limitOf pg)\<rceil>"
    using tp by (simp add: ceilDiv_def)
  show ?thesis using b rest cd by simp
qed

section \<open>Filters of the listing\<close>

lemma whereConditions_ignores:
  "whereConditions (dto\<lparr> s_type := t, s_furnishing := f, s_petFriendly := p \<rparr>) = whereConditions dto"
  by (rule ext) (simp add: whereConditions_def)

text \<open>
  C9. Two listing requests that differ only in \<open>type\<close>, \<open>furnishing\<close> and \<open>petFriendly\<close> get
  the same result: whatever values these three fields are given, the result of
  \<open>findAllPaginated\<close> is the one of the request without the change. So are the options of
  its query, and the response built from any answer of the store.
\<close>

theorem findAllPaginated_unsupported_filters:
  "findAllPaginated (dto\<lparr> s_type := t, s_furnishing := f, s_petFriendly := p \<rparr>) pg st
     = findAllPaginated dto pg st
   \<and> findOptions (dto\<lparr> s_type := t, s_furnishing := f, s_petFriendly := p \<rparr>) pg
     = findOptions dto pg
   \<and> paginated (dto\<lparr> s_type := t, s_furnishing := f, s_petFriendly := p \<rparr>) pg answer
     = paginated dto pg answer"
proof -
  have o: "findOptions (dto\<lparr> s_type := t, s_furnishing := f, s_petFriendly := p \<rparr>) pg
             = findOptions dto pg"
    by (simp add: findOptions_def whereConditions_ignores sortByOf_def sortOrderOf_def)
  have r: "paginated (dto\<lparr> s_type := t, s_furnishing := f, s_petFriendly := p \<rparr>) pg answer
             = paginated dto pg answer" for answer
    by (simp add: paginated_def sortByOf_def sortOrderOf_def split: prod.split)
  have "findAllPaginated (dto\<lparr> s_type := t, s_furnishing := f, s_petFriendly := p \<rparr>) pg st
          = findAllPaginated dto pg st"
    by (simp add: findAllPaginated_def o r split: sum.split)
  with o r show ?thesis by simp
qed


text \<open>
  The filters that the conditions of the query do hold: a row they select is available, not
  deleted, and passes the search, project, price, bedrooms and bathrooms conditions of the
  request.
\<close>

lemma where_applied_filters:
  assumes w: "fo_where (findOptions dto pg) r"
  shows "isAvailable r" and "deletedAt r = None"
    and "s_minPrice dto = Some lo \<Longrightarrow> lo \<le> price r"
    and "s_maxPrice dto = Some hi \<Longrightarrow> price r \<le> hi"
    and "s_bedrooms dto = Some n \<Longrightarrow> bedrooms r = n"
    and "s_bathrooms dto = Some n \<Longrightarrow> bathrooms r = n"
    and "s_search dto = Some s \<Longrightarrow> s \<noteq> [] \<Longrightarrow> Like (''%'' @ s @ ''%'') (unitName r)"
    and "s_project dto = Some s \<Longrightarrow> s \<noteq> [] \<Longrightarrow> Like (''%'' @ s @ ''%'') (project r)"
proof -
  from w have w: "whereConditions dto r" by (simp add: findOptions_def)
  show "isAvailable r" and "deletedAt r = None" using w by (simp_all add: whereConditions_def)
  show "s_minPrice dto = Some lo \<Longrightarrow> lo \<le> price r"
    using w by (cases "s_maxPrice dto")
      (simp_all add: whereConditions_def priceCondition_def Between_def MoreThanOrEqual_def)
  show "s_maxPrice dto = Some hi \<Longrightarrow> price r \<le> hi"
    using w by (cases "s_minPrice dto")
      (simp_all add: whereConditions_def priceCondition_def Between_def LessThanOrEqual_def)
  show "s_bedrooms dto = Some n \<Longrightarrow> bedrooms r = n"
    using w by (simp add: whereConditions_def equalCondition_def)
  show "s_bathrooms dto = Some n \<Longrightarrow> bathrooms r = n"
    using w by (simp add: whereConditions_def equalCondition_def)
  show "s_search dto = Some s \<Longrightarrow> s \<noteq> [] \<Longrightarrow> Like (''%'' @ s @ ''%'') (unitName r)"
    using w by (simp add: whereConditions_def likeCondition_def)
  show "s_project dto = Some s \<Longrightarrow> s \<noteq> [] \<Longrightarrow> Like (''%'' @ s @ ''%'') (project r)"
    using w by (simp add: whereConditions_def likeCondition_def)
qed

section \<open>The search text\<close>

lemma Like_percent: "Like (CHR ''%'' # q) t \<longleftrightarrow> (\<exists>u v. t = u @ v \<and> Like q v)"
proof (induction t)
  case Nil
  show ?case by simp
next
  case (Cons c cs)
  have "Like (CHR ''%'' # q) (c # cs) \<longleftrightarrow> Like q (c # cs) \<or> Like (CHR ''%'' # q) cs"
    by simp
  also have "\<dots> \<longleftrightarrow> Like q (c # cs) \<or> (\<exists>u v. cs = u @ v \<and> Like q v)"
    using Cons.IH by simp
  also have "\<dots> \<longleftrightarrow> (\<exists>u v. c # cs = u @ v \<and> Like q v)"
    by (auto simp: Cons_eq_append_conv)
  finally show ?case .
qed

lemma Like_literal:
  "\<forall>c \<in> set s. \<not> likeSpecial c \<Longrightarrow>
     Like (s @ q) t \<longleftrightarrow> (\<exists>u v. t = u @ v \<and> toLowerCase u = toLowerCase s \<and> Like q v)"
proof (induction s arbitrary: t)
  case Nil
  show ?case by (simp add: toLowerCase_def)
next
  case (Cons a s)
  then have a: "a \<noteq> CHR ''%''" "a \<noteq> CHR ''_''" and s: "\<forall>c \<in> set s. \<not> likeSpecial c"
    by (auto simp: likeSpecial_def)
  show ?case
  proof (cases t)
    case Nil
    then show ?thesis using a by (simp add: toLowerCase_def)
  next
    case t: (Cons c cs)
    have "Like ((a # s) @ q) t \<longleftrightarrow> toLowerChar a = toLowerChar c \<and> Like (s @ q) cs"
      using a t by simp
    also have "\<dots> \<longleftrightarrow> toLowerChar a = toLowerChar c
                 \<and> (\<exists>u v. cs = u @ v \<and> toLowerCase u = toLowerCase s \<and> Like q v)"
      using Cons.IH[OF s, of cs] by simp
    also have "\<dots> \<longleftrightarrow> (\<exists>u v. t = u @ v \<and> toLowerCase u = toLowerCase (a # s) \<and> Like q v)"
    proof
      assume "toLowerChar a = toLowerChar c
                 \<and> (\<exists>u v. cs = u @ v \<and> toLowerCase u = toLowerCase s \<and> Like q v)"
      then obtain u v where "cs = u @ v" "toLowerCase u = toLowerCase s" "Like q v"
        and ac: "toLowerChar a = toLowerChar c" by blast
      then have "t = (c # u) @ v \<and> toLowerCase (c # u) = toLowerCase (a # s) \<and> Like q v"
        using t by (simp add: toLowerCase_def)
      then show "\<exists>u v. t = u @ v \<and> toLowerCase u = toLowerCase (a # s) \<and> Like q v" by blast
    next
      assume "\<exists>u v. t = u @ v \<and> toLowerCase u = toLowerCase (a # s) \<and> Like q v"
      then obtain u v where tv: "t = u @ v" and eq: "toLowerCase u = toLowerCase (a # s)"
        and l: "Like q v" by blast
      from eq obtain b u' where u: "u = b # u'" by (cases u) (auto simp: toLowerCase_def)
      with eq have "toLowerChar b = toLowerChar a" "toLowerCase u' = toLowerCase s"
        by (simp_all add: toLowerCase_def)
      moreover from tv u t have "b = c" "cs = u' @ v" by simp_all
      ultimately show "toLowerChar a = toLowerChar c
                 \<and> (\<exists>u v. cs = u @ v \<and> toLowerCase u = toLowerCase s \<and> Like q v)"
        using l by auto
    qed
    finally show ?thesis .
  qed
qed

text \<open>
  A pattern \<open>%s%\<close> whose text \<open>s\<close> is plain matches the strings that contain \<open>s\<close>, letters
  compared without regard to case.
\<close>

lemma Like_contains:
  assumes "\<forall>c \<in> set s. \<not> likeSpecial c"
  shows "Like (''%'' @ s @ ''%'') t \<longleftrightarrow> sublist (toLowerCase s) (toLowerCase t)"
proof -
  have any: "Like ''%'' v" for v by (induction v) simp_all
  have "Like (''%'' @ s @ ''%'') t \<longleftrightarrow> (\<exists>u v. t = u @ v \<and> Like (s @ ''%'') v)"
    using Like_percent[of "s @ ''%''" t] by simp
  also have "\<dots> \<longleftrightarrow> (\<exists>u v. t = u @ v \<and> (\<exists>x w. v = x @ w \<and> toLowerCase x = toLowerCase s))"
    using Like_literal[OF assms, of "''%''"] any by simp
  also have "\<dots> \<longleftrightarrow> (\<exists>u x w. t = u @ x @ w \<and> toLowerCase x = toLowerCase s)"
    by blast
  also have "\<dots> \<longleftrightarrow> sublist (toLowerCase s) (toLowerCase t)"
  proof
    assume "\<exists>u x w. t = u @ x @ w \<and> toLowerCase x = toLowerCase s"
    then obtain u x w where "t = u @ x @ w" "toLowerCase x = toLowerCase s" by blast
    then have "toLowerCase t = toLowerCase u @ toLowerCase s @ toLowerCase w"
      by (simp add: toLowerCase_def)
    then show "sublist (toLowerCase s) (toLowerCase t)" by (auto simp: sublist_def)
  next
    assume "sublist (toLowerCase s) (toLowerCase t)"
    then obtain ps ss where "map toLowerChar t = ps @ map toLowerChar s @ ss"
      by (auto simp: sublist_def toLowerCase_def)
    then obtain u r where t: "t = u @ r" and "map toLowerChar r = map toLowerChar s @ ss"
      by (metis map_eq_append_conv)
    then obtain x w where "r = x @ w" and "map toLowerChar x = map toLowerChar s"
      by (metis map_eq_append_conv)
    with t have "t = u @ x @ w \<and> toLowerCase x = toLowerCase s" by (simp add: toLowerCase_def)
    then show "\<exists>u x w. t = u @ x @ w \<and> toLowerCase x = toLowerCase s" by blast
  qed
  finally show ?thesis .
qed

text \<open>
  A non-empty search text adds one condition to the query, on the unit name alone; for a
  plain text it is that the unit name contains the text.
\<close>

lemma search_where:
  assumes search: "s_search dto = Some s" and ne: "s \<noteq> []"
  shows "fo_where (findOptions dto pg) r \<longleftrightarrow>
           fo_where (findOptions (dto\<lparr> s_search := None \<rparr>) pg) r
           \<and> Like (''%'' @ s @ ''%'') (unitName r)"
    and "\<forall>c \<in> set s. \<not> likeSpecial c \<Longrightarrow>
           fo_where (findOptions dto pg) r \<longleftrightarrow>
             fo_where (findOptions (dto\<lparr> s_search := None \<rparr>) pg) r
             \<and> sublist (toLowerCase s) (toLowerCase (unitName r))"
proof -
  show w: "fo_where (findOptions dto pg) r \<longleftrightarrow>
           fo_where (findOptions (dto\<lparr> s_search := None \<rparr>) pg) r
           \<and> Like (''%'' @ s @ ''%'') (unitName r)"
    using search ne by (auto simp: findOptions_def whereConditions_def likeCondition_def)
  show "fo_where (findOptions dto pg) r \<longleftrightarrow>
             fo_where (findOptions (dto\<lparr> s_search := None \<rparr>) pg) r
             \<and> sublist (toLowerCase s) (toLowerCase (unitName r))"
    if "\<forall>c \<in> set s. \<not> likeSpecial c"
    using w Like_contains[OF that, of "unitName r"] by simp
qed

text \<open>
  C10. The search text goes into the pattern as it is, so an underscore in it stands for any
  character. For the search text "_" the conditions of the query select every row of the
  table with a non-empty unit name, among them the apartment "Garden Loft" (unit number
  "G_7"), whose name has no underscore. The query itself is rejected (the relation
  \<open>reviews\<close>).
\<close>

theorem search_wildcard_not_escaped:
  "map unitName
     (filter (fo_where (findOptions (noFilters\<lparr> s_search := Some ''_'' \<rparr>)
                          \<lparr> p_page = None, p_limit = None \<rparr>)) (rows seededWithLoft))
     = [''Luxury Studio A1'', ''Executive Suite B2'', ''Penthouse Premium'', ''Cozy One Bedroom'',
        ''Family Haven'', ''Garden Loft'']
   \<and> map unitNumber
     (filter (fo_where (findOptions (noFilters\<lparr> s_search := Some ''_'' \<rparr>)
                          \<lparr> p_page = None, p_limit = None \<rparr>)) (rows seededWithLoft))
     = [''A1-001'', ''B2-105'', ''P1-001'', ''C1-204'', ''F2-301'', ''G_7'']
   \<and> \<not> sublist ''_'' ''Garden Loft''
   \<and> findAllPaginated (noFilters\<lparr> s_search := Some ''_'' \<rparr>) \<lparr> p_page = None, p_limit = None \<rparr>
        seededWithLoft
      = Inl (EntityPropertyNotFoundError ''reviews'')"
  by code_simp

section \<open>The primary key\<close>

text \<open>
  The empty table has a primary key, and every write keeps it: a new row takes the next key,
  and no update changes the key of a row.
\<close>

lemma rows_updateWhereId:
  "rows (updateWhereId i f now st)
     = map (\<lambda>r. if id_pk r = i then (f r)\<lparr> updatedAt := now \<rparr> else r) (rows st)"
  "nextId (updateWhereId i f now st) = nextId st"
  by (simp_all add: updateWhereId_def)

lemma primaryKey_iff:
  "primaryKey st \<longleftrightarrow> distinct (map id_pk (rows st)) \<and> (\<forall>r \<in> set (rows st). id_pk r < nextId st)"
  by (simp add: primaryKey_def list_all_iff)

lemma primaryKey_emptyStore: "primaryKey emptyStore"
  by (simp add: primaryKey_def emptyStore_def)

lemma primaryKey_save:
  assumes "primaryKey st" and "save a now st = Inr (saved, st')"
  shows "primaryKey st'"
proof -
  from assms(2) have saved: "id_pk saved = nextId st"
    and rows': "rows st' = rows st @ [saved]" and next': "nextId st' = nextId st + 1"
    by (auto simp: save_def Let_def split: if_splits)
  from assms(1) have d: "distinct (map id_pk (rows st))"
    and b: "\<forall>r \<in> set (rows st). id_pk r < nextId st" by (simp_all add: primaryKey_iff)
  from b saved have "id_pk saved \<notin> id_pk ` set (rows st)" by auto
  with d b show ?thesis by (auto simp: primaryKey_iff rows' next' saved)
qed

lemma primaryKey_create:
  assumes "primaryKey st" and "create dto now st = Inr (saved, st')"
  shows "primaryKey st'"
  using assms by (auto simp: create_def Let_def intro: primaryKey_save)

lemma primaryKey_updateWhereId:
  assumes "primaryKey st" and "\<And>r. id_pk (f r) = id_pk r"
  shows "primaryKey (updateWhereId i f now st)"
proof -
  have "map id_pk (map (\<lambda>r. if id_pk r = i then (f r)\<lparr> updatedAt := now \<rparr> else r) (rows st))
          = map id_pk (rows st)"
    using assms(2) by (induction "rows st") (auto simp: comp_def)
  then show ?thesis
    using assms by (auto simp: primaryKey_iff rows_updateWhereId simp del: map_map)
qed

lemma primaryKey_incrementViewCount:
  "primaryKey st \<Longrightarrow> primaryKey (incrementViewCount i now st)"
  unfolding incrementViewCount_def by (rule primaryKey_updateWhereId) simp_all

lemma primaryKey_softDelete:
  "primaryKey st \<Longrightarrow> primaryKey (snd (softDelete i now st))"
  by (cases "findOneWithDetails i st") (simp_all add: softDelete_def primaryKey_updateWhereId)

lemma primaryKey_update:
  assumes "primaryKey st" and "update i dto now st = Inr (found, st')"
  shows "primaryKey st'"
proof -
  from assms(2) have "st' = updateWhereId i (updateColumns dto now) now st"
    by (auto simp: update_def Let_def split: if_splits)
  moreover have "id_pk (updateColumns dto now r) = id_pk r" for r
    by (simp add: updateColumns_def)
  ultimately show ?thesis using assms(1) by (simp add: primaryKey_updateWhereId)
qed

section \<open>Fetching a record\<close>

lemma find_SomeD: "find P xs = Some a \<Longrightarrow> P a \<and> a \<in> set xs"
  by (induction xs) (auto split: if_splits)

lemma findOneWithDetails_Some:
  assumes "findOneWithDetails i st = Some r"
  shows "r \<in> set (rows st)" and "id_pk r = i" and "isAvailable r" and "deletedAt r = None"
  using find_SomeD[OF assms[unfolded findOneWithDetails_def]] by simp_all

lemma findOneWithDetails_None:
  "findOneWithDetails i st = None \<longleftrightarrow>
     \<not> (\<exists>x \<in> set (rows st). id_pk x = i \<and> isAvailable x \<and> deletedAt x = None)"
  unfolding findOneWithDetails_def find_None_iff by blast

lemma find_map_same:
  assumes "\<And>x. P (f x) = P x"
  shows "find P (map (\<lambda>x. if Q x then f x else x) xs) = map_option (\<lambda>x. if Q x then f x else x) (find P xs)"
  using assms by (induction xs) auto

lemma update_one_row:
  assumes d: "distinct (map id_pk xs)" and r: "r \<in> set xs"
  shows "\<exists>pre post. xs = pre @ r # post
           \<and> map (\<lambda>x. if id_pk x = id_pk r then f x else x) xs = pre @ f r # post"
proof -
  from r obtain pre post where xs: "xs = pre @ r # post" by (auto dest: split_list)
  from d xs have "id_pk r \<notin> id_pk ` set pre" and "id_pk r \<notin> id_pk ` set post" by auto
  then have "\<forall>x \<in> set pre \<union> set post. id_pk x \<noteq> id_pk r" by (auto simp: image_iff)
  then have "map (\<lambda>x. if id_pk x = id_pk r then f x else x) pre = pre"
        and "map (\<lambda>x. if id_pk x = id_pk r then f x else x) post = post"
    by (auto intro: map_idI)
  with xs show ?thesis by auto
qed

lemma findOne_after_increment:
  "findOneWithDetails i (incrementViewCount i now st)
     = map_option (\<lambda>r. r\<lparr> viewCount := viewCount r + 1, updatedAt := now \<rparr>)
         (findOneWithDetails i st)"
proof -
  let ?P = "\<lambda>r. id_pk r = i \<and> isAvailable r \<and> deletedAt r = None"
  let ?f = "\<lambda>r::Apartment. r\<lparr> viewCount := viewCount r + 1, updatedAt := now \<rparr>"
  have "find ?P (map (\<lambda>x. if id_pk x = i then ?f x else x) (rows st))
          = map_option (\<lambda>x. if id_pk x = i then ?f x else x) (find ?P (rows st))"
    by (rule find_map_same) simp
  also have "\<dots> = map_option ?f (find ?P (rows st))"
    by (cases "find ?P (rows st)") (auto dest: find_SomeD)
  finally show ?thesis
    by (simp add: findOneWithDetails_def incrementViewCount_def rows_updateWhereId)
qed

lemma controller_findOne_found:
  assumes "findOneWithDetails i st = Some r"
  shows "fst (controller_findOne i now st)
           = Inr \<lparr> apartment = r,
                   similarApartments = findSimilar i 3 (incrementViewCount i now st) \<rparr>"
    and "snd (controller_findOne i now st) = incrementViewCount i now st"
  using assms by (simp_all add: controller_findOne_def Let_def)

lemma controller_findOne_missing:
  assumes "findOneWithDetails i st = None"
  shows "controller_findOne i now st = (Inl NOT_FOUND, st)"
  using assms by (simp add: controller_findOne_def)

text \<open>
  The claim C3 reads "changes nothing else": a fetch of the first seeded apartment at time
  5000 succeeds and leaves the row with \<open>updatedAt = 5000\<close>, where it was 0.
\<close>

theorem getById_updatedAt_counterexample:
  "\<not> isl (fst (controller_findOne 1 5000 seeded))
   \<and> map updatedAt (rows seeded) = [0, 0, 0, 0, 0]
   \<and> map updatedAt (rows (snd (controller_findOne 1 5000 seeded))) = [5000, 0, 0, 0, 0]"
  by code_simp

text \<open>
  C3, as the code has it. \<open>GET /apartments/:id\<close> finds a record exactly when the table has
  an available, non-deleted row with that id, and answers NotFound otherwise, leaving the
  table as it is. A successful fetch at time \<open>now\<close> returns that row, adds 1 to the
  \<open>viewCount\<close> of the rows with the id and sets their \<open>updatedAt\<close> to \<open>now\<close>; under the
  primary key that is the one row returned, and every other row and every other column is
  unchanged. After the fetch the record is found with a \<open>viewCount\<close> one higher, and after
  three fetches in a row three higher (3 when it started at 0).
\<close>

theorem getById_viewCount:
  "(findOneWithDetails i st = None \<longleftrightarrow>
      \<not> (\<exists>x \<in> set (rows st). id_pk x = i \<and> isAvailable x \<and> deletedAt x = None))
   \<and> (findOneWithDetails i st = None \<longrightarrow> controller_findOne i now st = (Inl NOT_FOUND, st))
   \<and> (\<forall>r. findOneWithDetails i st = Some r \<longrightarrow>
         r \<in> set (rows st) \<and> id_pk r = i \<and> isAvailable r \<and> deletedAt r = None
         \<and> (\<exists>resp st'. controller_findOne i now st = (Inr resp, st') \<and> apartment resp = r
               \<and> nextId st' = nextId st
               \<and> rows st' = map (\<lambda>x. if id_pk x = i
                                      then x\<lparr> viewCount := viewCount x + 1, updatedAt := now \<rparr>
                                      else x) (rows st)
               \<and> (primaryKey st \<longrightarrow>
                    (\<exists>pre post. rows st = pre @ r # post
                        \<and> rows st' = pre @ r\<lparr> viewCount := viewCount r + 1, updatedAt := now \<rparr>
                                          # post))
               \<and> findOneWithDetails i st'
                   = Some (r\<lparr> viewCount := viewCount r + 1, updatedAt := now \<rparr>))
         \<and> findOneWithDetails i
              (snd (controller_findOne i t3 (snd (controller_findOne i t2
                 (snd (controller_findOne i now st))))))
             = Some (r\<lparr> viewCount := viewCount r + 3, updatedAt := t3 \<rparr>))"
proof -
  have three: "findOneWithDetails i
              (snd (controller_findOne i t3 (snd (controller_findOne i t2
                 (snd (controller_findOne i now st))))))
             = Some (r\<lparr> viewCount := viewCount r + 3, updatedAt := t3 \<rparr>)"
    if r: "findOneWithDetails i st = Some r" for r
  proof -
    let ?s1 = "snd (controller_findOne i now st)"
    have s1: "?s1 = incrementViewCount i now st" using r by (rule controller_findOne_found)
    have f1: "findOneWithDetails i ?s1 = Some (r\<lparr> viewCount := viewCount r + 1, updatedAt := now \<rparr>)"
      by (simp add: s1 findOne_after_increment r)
    let ?s2 = "snd (controller_findOne i t2 ?s1)"
    have s2: "?s2 = incrementViewCount i t2 ?s1" using f1 by (rule controller_findOne_found)
    have f2: "findOneWithDetails i ?s2 = Some (r\<lparr> viewCount := viewCount r + 2, updatedAt := t2 \<rparr>)"
      by (simp add: s2 findOne_after_increment f1)
    let ?s3 = "snd (controller_findOne i t3 ?s2)"
    have s3: "?s3 = incrementViewCount i t3 ?s2" using f2 by (rule controller_findOne_found)
    show ?thesis
      by (simp add: s3 findOne_after_increment f2)
  qed
  have one: "\<exists>resp st'. controller_findOne i now st = (Inr resp, st') \<and> apartment resp = r
               \<and> nextId st' = nextId st
               \<and> rows st' = map (\<lambda>x. if id_pk x = i
                                      then x\<lparr> viewCount := viewCount x + 1, updatedAt := now \<rparr>
                                      else x) (rows st)
               \<and> (primaryKey st \<longrightarrow>
                    (\<exists>pre post. rows st = pre @ r # post
                        \<and> rows st' = pre @ r\<lparr> viewCount := viewCount r + 1, updatedAt := now \<rparr>
                                          # post))
               \<and> findOneWithDetails i st'
                   = Some (r\<lparr> viewCount := viewCount r + 1, updatedAt := now \<rparr>)"
    if r: "findOneWithDetails i st = Some r" for r
  proof -
    let ?f = "\<lambda>x::Apartment. x\<lparr> viewCount := viewCount x + 1, updatedAt := now \<rparr>"
    let ?st' = "incrementViewCount i now st"
    have c: "controller_findOne i now st
               = (Inr \<lparr> apartment = r, similarApartments = findSimilar i 3 ?st' \<rparr>, ?st')"
      using controller_findOne_found[OF r] by (simp add: prod_eq_iff)
    have rows': "rows ?st' = map (\<lambda>x. if id_pk x = i then ?f x else x) (rows st)"
      and nid: "nextId ?st' = nextId st"
      by (simp_all add: incrementViewCount_def rows_updateWhereId)
    have pk: "primaryKey st \<longrightarrow>
                (\<exists>pre post. rows st = pre @ r # post \<and> rows ?st' = pre @ ?f r # post)"
    proof
      assume "primaryKey st"
      then have d: "distinct (map id_pk (rows st))" by (simp add: primaryKey_def)
      from update_one_row[OF d findOneWithDetails_Some(1)[OF r], of ?f]
      show "\<exists>pre post. rows st = pre @ r # post \<and> rows ?st' = pre @ ?f r # post"
        by (simp add: rows' findOneWithDetails_Some(2)[OF r])
    qed
    have f: "findOneWithDetails i ?st' = Some (?f r)"
      by (simp add: findOne_after_increment r)
    have a: "apartment \<lparr> apartment = r, similarApartments = findSimilar i 3 ?st' \<rparr> = r" by simp
    show ?thesis
      by (intro exI[of _ "\<lparr> apartment = r, similarApartments = findSimilar i 3 ?st' \<rparr>"]
                exI[of _ "?st'"] conjI c a nid rows' pk f)
  qed
  show ?thesis
    using findOneWithDetails_None[of i st] controller_findOne_missing[of i st now]
      findOneWithDetails_Some one three by blast
qed

text \<open>
  The apartment created in the seeded table (id 6) starts at \<open>viewCount = 0\<close> and stands at
  3 after three fetches; id 99 is not in the seeded table.
\<close>

theorem getById_viewCount_witness:
  "findOneWithDetails 6 seededWithLoft \<noteq> None
   \<and> primaryKey seededWithLoft
   \<and> viewCount (the (findOneWithDetails 6 seededWithLoft)) = 0
   \<and> viewCount (the (findOneWithDetails 6
        (snd (controller_findOne 6 30 (snd (controller_findOne 6 20
           (snd (controller_findOne 6 10 seededWithLoft)))))))) = 3
   \<and> updatedAt (the (findOneWithDetails 6
        (snd (controller_findOne 6 30 (snd (controller_findOne 6 20
           (snd (controller_findOne 6 10 seededWithLoft)))))))) = 30
   \<and> findOneWithDetails 99 seeded = None
   \<and> controller_findOne 99 10 seeded = (Inl NOT_FOUND, seeded)"
proof -
  have ne: "findOneWithDetails 6 seededWithLoft \<noteq> None" by code_simp
  then obtain r where r: "findOneWithDetails 6 seededWithLoft = Some r" by blast
  have pk: "primaryKey seededWithLoft" by code_simp
  have v0: "viewCount (the (findOneWithDetails 6 seededWithLoft)) = 0" by code_simp
  have none: "findOneWithDetails 99 seeded = None" by code_simp
  from getById_viewCount[of 6 seededWithLoft 10 30 20] r
  have e: "findOneWithDetails 6
          (snd (controller_findOne 6 30 (snd (controller_findOne 6 20
             (snd (controller_findOne 6 10 seededWithLoft))))))
        = Some (r\<lparr> viewCount := viewCount r + 3, updatedAt := 30 \<rparr>)" by blast
  from e v0 r have three: "viewCount (the (findOneWithDetails 6
        (snd (controller_findOne 6 30 (snd (controller_findOne 6 20
           (snd (controller_findOne 6 10 seededWithLoft)))))))) = 3" by simp
  from e have upd: "updatedAt (the (findOneWithDetails 6
        (snd (controller_findOne 6 30 (snd (controller_findOne 6 20
           (snd (controller_findOne 6 10 seededWithLoft)))))))) = 30" by simp
  from getById_viewCount[of 99 seeded 10] none
  have "controller_findOne 99 10 seeded = (Inl NOT_FOUND, seeded)" by blast
  with ne pk v0 three upd none show ?thesis by blast
qed

section \<open>Similar apartments\<close>

lemma set_orderBy: "set (orderBy k ord xs) = set xs"
  by (simp add: orderBy_def split: SortOrder.split)

lemma orderBy_DESC_sorted: "sorted_wrt (\<lambda>x y. k x \<ge> k y) (orderBy k DESC xs)"
proof -
  have "sorted (map (\<lambda>r. - k r) (sort_key (\<lambda>r. - k r) xs))" by (rule sorted_sort_key)
  then show ?thesis by (simp add: orderBy_def sorted_map)
qed


lemma findSimilar_missing:
  "findOneWithDetails i st = None \<Longrightarrow> findSimilar i n st = []"
  by (simp add: findSimilar_def)

lemma findSimilar_found:
  assumes "findOneWithDetails i st = Some a"
  shows "findSimilar i n st
           = take (nat n)
               (orderBy (\<lambda>r. of_int (viewCount r)) DESC
                  (filter (\<lambda>r. id_pk r \<noteq> i \<and> bedrooms r = bedrooms a
                                \<and> Between (price a - price a * (2 / 10))
                                           (price a + price a * (2 / 10)) (price r)
                                \<and> isAvailable r \<and> deletedAt r = None)
                     (rows st)))"
  using assms by (simp add: findSimilar_def Let_def skipTake_def)

text \<open>
  C4. \<open>findSimilar(id, limit)\<close> returns at most \<open>limit\<close> records, ordered by \<open>viewCount\<close>
  descending, and none when the target is not found (missing, deleted or unavailable). Each
  record returned is an available, non-deleted row other than the target, with the target's
  number of bedrooms and a price between 80% and 120% of the target's, bounds included.
\<close>

theorem findSimilar_properties:
  "length (findSimilar i n st) \<le> nat n
   \<and> sorted_wrt (\<lambda>x y. viewCount x \<ge> viewCount y) (findSimilar i n st)
   \<and> (findOneWithDetails i st = None \<longrightarrow> findSimilar i n st = [])
   \<and> (\<forall>x \<in> set (findSimilar i n st).
         \<exists>a. findOneWithDetails i st = Some a
            \<and> x \<in> set (rows st) \<and> isAvailable x \<and> deletedAt x = None
            \<and> id_pk x \<noteq> i \<and> x \<noteq> a
            \<and> bedrooms x = bedrooms a
            \<and> price a - price a * (2 / 10) \<le> price x \<and> price x \<le> price a + price a * (2 / 10)
            \<and> \<bar>price x - price a\<bar> \<le> price a * (2 / 10))"
proof (cases "findOneWithDetails i st")
  case None
  then show ?thesis by (simp add: findSimilar_missing)
next
  case (Some a)
  let ?w = "\<lambda>r. id_pk r \<noteq> i \<and> bedrooms r = bedrooms a
                  \<and> Between (price a - price a * (2 / 10)) (price a + price a * (2 / 10)) (price r)
                  \<and> isAvailable r \<and> deletedAt r = None"
  let ?sorted = "orderBy (\<lambda>r. rat_of_int (viewCount r)) DESC (filter ?w (rows st))"
  have eq: "findSimilar i n st = take (nat n) ?sorted" using Some by (rule findSimilar_found)
  have len: "length (findSimilar i n st) \<le> nat n" by (simp add: eq)
  have "sorted_wrt (\<lambda>x y. rat_of_int (viewCount x) \<ge> rat_of_int (viewCount y)) ?sorted"
    by (rule orderBy_DESC_sorted)
  then have "sorted_wrt (\<lambda>x y. viewCount x \<ge> viewCount y) ?sorted" by simp
  then have srt: "sorted_wrt (\<lambda>x y. viewCount x \<ge> viewCount y) (findSimilar i n st)"
    by (simp add: eq sorted_wrt_take)
  have mem: "x \<in> set (rows st) \<and> ?w x" if "x \<in> set (findSimilar i n st)" for x
  proof -
    from that have "x \<in> set ?sorted" unfolding eq by (rule in_set_takeD)
    then show ?thesis by (simp add: set_orderBy)
  qed
  have each: "\<exists>a'. findOneWithDetails i st = Some a'
            \<and> x \<in> set (rows st) \<and> isAvailable x \<and> deletedAt x = None
            \<and> id_pk x \<noteq> i \<and> x \<noteq> a'
            \<and> bedrooms x = bedrooms a'
            \<and> price a' - price a' * (2 / 10) \<le> price x \<and> price x \<le> price a' + price a' * (2 / 10)
            \<and> \<bar>price x - price a'\<bar> \<le> price a' * (2 / 10)"
    if "x \<in> set (findSimilar i n st)" for x
  proof -
    from mem[OF that] have x: "x \<in> set (rows st)" "id_pk x \<noteq> i" "bedrooms x = bedrooms a"
      "isAvailable x" "deletedAt x = None"
      and b: "price a - price a * (2 / 10) \<le> price x" "price x \<le> price a + price a * (2 / 10)"
      by (simp_all add: Between_def)
    from x(2) findOneWithDetails_Some(2)[OF Some] have "x \<noteq> a" by auto
    moreover from b have "\<bar>price x - price a\<bar> \<le> price a * (2 / 10)" by linarith
    ultimately show ?thesis using Some x b by blast
  qed
  from len srt each Some show ?thesis by simp
qed

text \<open>
  The apartment "Garden Loft" (price 1500, two bedrooms) has one similar apartment in the
  seeded table: "Family Haven", whose price 1800 is exactly 20% above.
\<close>

theorem findSimilar_properties_witness:
  "map id_pk (findSimilar 6 3 seededWithLoft) = [5]
   \<and> map price (findSimilar 6 3 seededWithLoft) = [1800]
   \<and> price (the (findOneWithDetails 6 seededWithLoft)) = 1500
   \<and> (\<exists>a. findOneWithDetails 6 seededWithLoft = Some a
          \<and> \<bar>price (hd (findSimilar 6 3 seededWithLoft)) - price a\<bar> \<le> price a * (2 / 10))"
proof -
  have ids: "map id_pk (findSimilar 6 3 seededWithLoft) = [5]" by code_simp
  have pr: "map price (findSimilar 6 3 seededWithLoft) = [1800]" by code_simp
  have tp: "price (the (findOneWithDetails 6 seededWithLoft)) = 1500" by code_simp
  from ids have "findSimilar 6 3 seededWithLoft \<noteq> []" by auto
  then have "hd (findSimilar 6 3 seededWithLoft) \<in> set (findSimilar 6 3 seededWithLoft)"
    by (rule hd_in_set)
  with findSimilar_properties[of 6 3 seededWithLoft]
  have "\<exists>a. findOneWithDetails 6 seededWithLoft = Some a
          \<and> \<bar>price (hd (findSimilar 6 3 seededWithLoft)) - price a\<bar> \<le> price a * (2 / 10)"
    by blast
  with ids pr tp show ?thesis by blast
qed

section \<open>Soft delete\<close>

lemma softDelete_found:
  assumes "findOneWithDetails i st = Some r"
  shows "softDelete i now st
           = (True, updateWhereId i (\<lambda>x. x\<lparr> isAvailable := False, deletedAt := Some now \<rparr>) now st)"
  using assms by (simp add: softDelete_def)

lemma softDelete_missing:
  assumes "findOneWithDetails i st = None"
  shows "softDelete i now st = (False, st)"
  using assms by (simp add: softDelete_def)

lemma findOne_after_softDelete:
  "findOneWithDetails i
     (updateWhereId i (\<lambda>x. x\<lparr> isAvailable := False, deletedAt := Some now \<rparr>) now st) = None"
proof -
  let ?g = "\<lambda>x::Apartment. if id_pk x = i
              then x\<lparr> isAvailable := False, deletedAt := Some now, updatedAt := now \<rparr> else x"
  have "\<not> (id_pk x = i \<and> isAvailable x \<and> deletedAt x = None)" if "x \<in> set (map ?g (rows st))" for x
  proof -
    from that [unfolded set_map] obtain y where "x = ?g y" by (rule imageE)
    then show ?thesis by (cases "id_pk y = i") simp_all
  qed
  then show ?thesis
    unfolding findOneWithDetails_None rows_updateWhereId by blast
qed

text \<open>
  The claim C5 reads "leaving all other fields of the record unchanged": the soft delete of
  the second seeded apartment at time 1000 leaves the row with \<open>updatedAt = 1000\<close>, where it
  was 0.
\<close>

theorem softDelete_updatedAt_counterexample:
  "fst (softDelete 2 1000 seeded)
   \<and> map updatedAt (rows seeded) = [0, 0, 0, 0, 0]
   \<and> map updatedAt (rows (snd (softDelete 2 1000 seeded))) = [0, 1000, 0, 0, 0]"
  by code_simp

text \<open>
  C5, as the code has it. \<open>softDelete(id)\<close> at time \<open>now\<close> on an available, non-deleted
  record \<open>r\<close> answers true, sets \<open>isAvailable = false\<close> and \<open>deletedAt = now\<close> in the rows
  with the id, and the store sets their \<open>updatedAt\<close> to \<open>now\<close>; nothing else changes: under
  the primary key the table is the old one with \<open>r\<close> replaced by \<open>r\<close> with these three
  columns set. The row is still in the table. A second \<open>softDelete\<close> (and
  \<open>DELETE /apartments/:id\<close>) answers NotFound and changes nothing,
  \<open>GET /apartments/:id\<close> answers NotFound, and the row does not satisfy the conditions of
  the query of any listing request.
\<close>

theorem softDelete_effect:
  assumes r: "findOneWithDetails i st = Some r"
  shows "\<exists>st'. softDelete i now st = (True, st')
          \<and> controller_remove i now answered st = (Inr answered, st')
          \<and> nextId st' = nextId st
          \<and> rows st' = map (\<lambda>x. if id_pk x = i
                                 then x\<lparr> isAvailable := False, deletedAt := Some now,
                                         updatedAt := now \<rparr>
                                 else x) (rows st)
          \<and> r\<lparr> isAvailable := False, deletedAt := Some now, updatedAt := now \<rparr> \<in> set (rows st')
          \<and> (primaryKey st \<longrightarrow>
                (\<exists>pre post. rows st = pre @ r # post
                    \<and> rows st' = pre @ r\<lparr> isAvailable := False, deletedAt := Some now,
                                           updatedAt := now \<rparr> # post))
          \<and> softDelete i later st' = (False, st')
          \<and> controller_remove i later answered' st' = (Inl NOT_FOUND, st')
          \<and> controller_findOne i later st' = (Inl NOT_FOUND, st')
          \<and> (\<forall>x \<in> set (rows st'). id_pk x = i \<longrightarrow> \<not> fo_where (findOptions dto pg) x)"
proof -
  let ?f = "\<lambda>x::Apartment. x\<lparr> isAvailable := False, deletedAt := Some now, updatedAt := now \<rparr>"
  let ?st' = "updateWhereId i (\<lambda>x. x\<lparr> isAvailable := False, deletedAt := Some now \<rparr>) now st"
  have sd: "softDelete i now st = (True, ?st')" using r by (rule softDelete_found)
  then have cr: "controller_remove i now answered st = (Inr answered, ?st')"
    by (simp add: controller_remove_def)
  have nid: "nextId ?st' = nextId st" by (simp add: rows_updateWhereId)
  have rows': "rows ?st' = map (\<lambda>x. if id_pk x = i then ?f x else x) (rows st)"
    by (simp add: rows_updateWhereId)
  have mem: "?f r \<in> set (rows ?st')"
  proof -
    have "(if id_pk r = i then ?f r else r) \<in> (\<lambda>x. if id_pk x = i then ?f x else x) ` set (rows st)"
      using findOneWithDetails_Some(1)[OF r] by (rule imageI)
    then show ?thesis by (simp add: rows' findOneWithDetails_Some(2)[OF r])
  qed
  have pk: "primaryKey st \<longrightarrow>
              (\<exists>pre post. rows st = pre @ r # post \<and> rows ?st' = pre @ ?f r # post)"
  proof
    assume "primaryKey st"
    then have d: "distinct (map id_pk (rows st))" by (simp add: primaryKey_def)
    from update_one_row[OF d findOneWithDetails_Some(1)[OF r], of ?f]
    show "\<exists>pre post. rows st = pre @ r # post \<and> rows ?st' = pre @ ?f r # post"
      by (simp add: rows' findOneWithDetails_Some(2)[OF r])
  qed
  have gone: "findOneWithDetails i ?st' = None" by (rule findOne_after_softDelete)
  have again: "softDelete i later ?st' = (False, ?st')" using gone by (rule softDelete_missing)
  then have again': "controller_remove i later answered' ?st' = (Inl NOT_FOUND, ?st')"
    by (simp add: controller_remove_def)
  have get: "controller_findOne i later ?st' = (Inl NOT_FOUND, ?st')"
    using gone by (rule controller_findOne_missing)
  have lst: "\<forall>x \<in> set (rows ?st'). id_pk x = i \<longrightarrow> \<not> fo_where (findOptions dto pg) x"
  proof (intro ballI impI)
    fix x assume x: "x \<in> set (rows ?st')" and i: "id_pk x = i"
    from gone x i have "\<not> (isAvailable x \<and> deletedAt x = None)"
      by (auto simp: findOneWithDetails_None)
    then show "\<not> fo_where (findOptions dto pg) x"
      by (auto simp: findOptions_def whereConditions_def)
  qed
  show ?thesis
    by (intro exI[of _ "?st'"] conjI sd cr nid rows' mem pk again again' get lst)
qed

text \<open>
  Deleting the second seeded apartment at time 1000: the row stays in the table, and the
  conditions of the listing without filters select the other four.
\<close>

theorem softDelete_effect_witness:
  "findOneWithDetails 2 seeded \<noteq> None
   \<and> primaryKey seeded
   \<and> fst (softDelete 2 1000 seeded)
   \<and> map isAvailable (rows (snd (softDelete 2 1000 seeded))) = [True, False, True, True, True]
   \<and> map deletedAt (rows (snd (softDelete 2 1000 seeded))) = [None, Some 1000, None, None, None]
   \<and> fst (controller_remove 2 2000 2001 (snd (softDelete 2 1000 seeded))) = Inl NOT_FOUND
   \<and> fst (controller_findOne 2 2000 (snd (softDelete 2 1000 seeded))) = Inl NOT_FOUND
   \<and> map id_pk (filter (fo_where (findOptions noFilters \<lparr> p_page = None, p_limit = None \<rparr>))
                   (rows (snd (softDelete 2 1000 seeded)))) = [1, 3, 4, 5]"
proof -
  have ne: "findOneWithDetails 2 seeded \<noteq> None" by code_simp
  then obtain r where r: "findOneWithDetails 2 seeded = Some r" by blast
  have pk: "primaryKey seeded" by code_simp
  from softDelete_effect[OF r, of 1000 _ 2000 2001]
  obtain st' where st': "softDelete 2 1000 seeded = (True, st')"
    and nf: "controller_remove 2 2000 2001 st' = (Inl NOT_FOUND, st')"
    and nf': "controller_findOne 2 2000 st' = (Inl NOT_FOUND, st')"
    by blast
  have a: "map isAvailable (rows (snd (softDelete 2 1000 seeded))) = [True, False, True, True, True]"
    by code_simp
  have b: "map deletedAt (rows (snd (softDelete 2 1000 seeded))) = [None, Some 1000, None, None, None]"
    by code_simp
  have c: "map id_pk (filter (fo_where (findOptions noFilters \<lparr> p_page = None, p_limit = None \<rparr>))
                   (rows (snd (softDelete 2 1000 seeded)))) = [1, 3, 4, 5]"
    by code_simp
  from st' nf nf' have "fst (softDelete 2 1000 seeded)"
    and "fst (controller_remove 2 2000 2001 (snd (softDelete 2 1000 seeded))) = Inl NOT_FOUND"
    and "fst (controller_findOne 2 2000 (snd (softDelete 2 1000 seeded))) = Inl NOT_FOUND"
    by simp_all
  with ne pk a b c show ?thesis by blast
qed

section \<open>The soft-delete invariant\<close>

text \<open>
  \<open>create\<close>, \<open>incrementViewCount\<close> and \<open>softDelete\<close> preserve the invariant, and so does an
  \<open>update\<close> that does not set \<open>isAvailable\<close> to true.
\<close>

lemma softDeleteInvariant_iff:
  "softDeleteInvariant st \<longleftrightarrow> (\<forall>r \<in> set (rows st). deletedAt r \<noteq> None \<longrightarrow> \<not> isAvailable r)"
  by (simp add: softDeleteInvariant_def list_all_iff)

lemma create_preserves_invariant:
  assumes "softDeleteInvariant st" and "create dto now st = Inr (a, st')"
  shows "softDeleteInvariant st'"
  using assms
  by (auto simp: softDeleteInvariant_iff create_def save_def repositoryCreate_def Let_def
           split: if_splits)

lemma incrementViewCount_preserves_invariant:
  assumes "softDeleteInvariant st"
  shows "softDeleteInvariant (incrementViewCount i now st)"
  using assms
  by (auto simp: softDeleteInvariant_iff incrementViewCount_def rows_updateWhereId split: if_splits)

lemma softDelete_preserves_invariant:
  assumes "softDeleteInvariant st"
  shows "softDeleteInvariant (snd (softDelete i now st))"
  using assms
  by (auto simp: softDeleteInvariant_iff softDelete_def rows_updateWhereId
           split: option.splits if_splits)

lemma update_preserves_invariant:
  assumes "softDeleteInvariant st" and "update i dto now st = Inr (found, st')"
    and "u_isAvailable dto \<noteq> Some True"
  shows "softDeleteInvariant st'"
  using assms
  by (cases "u_isAvailable dto")
     (auto simp: softDeleteInvariant_iff update_def Let_def rows_updateWhereId updateColumns_def
                 overwrite_def split: if_splits)

text \<open>
  C6. \<open>update\<close> does not preserve the invariant: it writes the row with the given id
  before it looks the record up, whether the row is soft-deleted or not. After the first
  seeded apartment is soft-deleted at time 1000, the update \<open>{ isAvailable: true }\<close> of its
  id is answered with "not found" (\<open>null\<close>), and leaves the row available with its deletion
  time still set.
\<close>

theorem update_after_softDelete:
  "map isAvailable (rows (snd (softDelete 1 1000 seeded))) = [False, True, True, True, True]
   \<and> map deletedAt (rows (snd (softDelete 1 1000 seeded))) = [Some 1000, None, None, None, None]
   \<and> (case update 1 (noChanges\<lparr> u_isAvailable := Some True \<rparr>) 2000 (snd (softDelete 1 1000 seeded)) of
         Inl e \<Rightarrow> False
       | Inr (found, st') \<Rightarrow>
           found = None
           \<and> map isAvailable (rows st') = [True, True, True, True, True]
           \<and> map deletedAt (rows st') = [Some 1000, None, None, None, None])"
  by code_simp

section \<open>Statistics\<close>
















section \<open>The slug\<close>

lemma dash_not_alnum: "\<not> isAlnum CHR ''-''"
  by (simp add: isAlnum_def)

lemma alnumWords_skip: "alnumWords (dropWhile (\<lambda>d. \<not> isAlnum d) s) = alnumWords s"
  by (induction s) simp_all

lemma replaceRuns_word:
  "\<forall>c \<in> set w. isAlnum c \<Longrightarrow> replaceRuns (w @ s) = w @ replaceRuns s"
  by (induction w) simp_all

lemma alnumWords_good:
  "w \<in> set (alnumWords s) \<Longrightarrow> w \<noteq> [] \<and> (\<forall>c \<in> set w. isAlnum c)"
proof (induction s rule: alnumWords.induct)
  case 1
  then show ?case by simp
next
  case (2 c cs)
  show ?case
  proof (cases "isAlnum c")
    case True
    with 2(3) have "w = c # takeWhile isAlnum cs \<or> w \<in> set (alnumWords (dropWhile isAlnum cs))"
      by simp
    then show ?thesis
    proof
      assume "w = c # takeWhile isAlnum cs"
      then show ?thesis using True by (auto dest: set_takeWhileD)
    next
      assume "w \<in> set (alnumWords (dropWhile isAlnum cs))"
      then show ?thesis using 2(1) True by blast
    qed
  next
    case False
    with 2(3) have "w \<in> set (alnumWords cs)" by simp
    then show ?thesis using 2(2) False by blast
  qed
qed

lemma joinDash_Cons: "ws \<noteq> [] \<Longrightarrow> joinDash (w # ws) = w @ ''-'' @ joinDash ws"
  by (cases ws) simp_all

lemma joinDash_last:
  assumes "\<forall>w \<in> set ws. w \<noteq> [] \<and> (\<forall>c \<in> set w. isAlnum c)" and "ws \<noteq> []"
  shows "joinDash ws \<noteq> [] \<and> isAlnum (last (joinDash ws)) \<and> isAlnum (hd (joinDash ws))"
  using assms
proof (induction ws rule: joinDash.induct)
  case 1
  then show ?case by simp
next
  case (2 w)
  then have "w \<noteq> []" and "\<forall>c \<in> set w. isAlnum c" by simp_all
  then show ?case using last_in_set[of w] hd_in_set[of w] by simp
next
  case (3 w v ws)
  from 3(2) have w: "w \<noteq> []" "\<forall>c \<in> set w. isAlnum c"
    and rest: "\<forall>u \<in> set (v # ws). u \<noteq> [] \<and> (\<forall>c \<in> set u. isAlnum c)" by simp_all
  from 3(1)[OF rest] have ih: "joinDash (v # ws) \<noteq> []" "isAlnum (last (joinDash (v # ws)))"
    by simp_all
  have "joinDash (w # v # ws) = w @ (''-'' @ joinDash (v # ws))" by simp
  moreover have "hd (w @ (''-'' @ joinDash (v # ws))) = hd w" using w(1) by simp
  moreover have "last (w @ (''-'' @ joinDash (v # ws))) = last (joinDash (v # ws))"
    using ih(1) by simp
  moreover have "isAlnum (hd w)" using w hd_in_set[of w] by blast
  ultimately show ?case using ih(2) w(1) by (simp only: append_is_Nil_conv) simp
qed

lemma replaceRuns_words:
  "s = [] \<or> isAlnum (hd s) \<Longrightarrow> replaceRuns s = joinDash (alnumWords s) @ trailing s"
proof (induction s rule: length_induct)
  case (1 s)
  show ?case
  proof (cases s)
    case Nil
    then show ?thesis by (simp add: trailing_def)
  next
    case (Cons c cs)
    with 1(2) have c: "isAlnum c" by simp
    let ?w = "c # takeWhile isAlnum cs"
    let ?rest = "dropWhile isAlnum cs"
    have s: "s = ?w @ ?rest" using Cons by simp
    have w: "\<forall>x \<in> set ?w. isAlnum x" using c by (auto dest: set_takeWhileD)
    have runs: "replaceRuns s = ?w @ replaceRuns ?rest"
      by (subst s) (rule replaceRuns_word[OF w])
    have words: "alnumWords s = ?w # alnumWords ?rest" using Cons c by simp
    show ?thesis
    proof (cases ?rest)
      case Nil
      with s have "s = ?w" by (simp only: append_Nil2)
      then have "last s = last ?w" by (simp only:)
      moreover have "isAlnum (last ?w)" using w last_in_set[of ?w] by blast
      ultimately have "trailing s = []" by (simp add: trailing_def)
      then show ?thesis using runs words Nil by simp
    next
      case rest: (Cons n r)
      have n: "\<not> isAlnum n" using hd_dropWhile[of isAlnum cs] rest by simp
      let ?r' = "dropWhile (\<lambda>d. \<not> isAlnum d) r"
      have len: "length ?r' < length s"
      proof -
        have "length ?r' \<le> length r" by (rule length_dropWhile_le)
        also have "\<dots> < length ?rest" using rest by simp
        also have "\<dots> \<le> length cs" by (rule length_dropWhile_le)
        also have "\<dots> < length s" using Cons by simp
        finally show ?thesis .
      qed
      have hd': "?r' = [] \<or> isAlnum (hd ?r')" using hd_dropWhile[of "\<lambda>d. \<not> isAlnum d" r] by auto
      from 1(1) len hd' have ih: "replaceRuns ?r' = joinDash (alnumWords ?r') @ trailing ?r'"
        by blast
      have runs': "replaceRuns s = ?w @ ''-'' @ replaceRuns ?r'"
        using runs rest n by simp
      have words': "alnumWords s = ?w # alnumWords ?r'"
        using words rest n by (simp add: alnumWords_skip)
      have split: "s = (?w @ n # takeWhile (\<lambda>d. \<not> isAlnum d) r) @ ?r'"
        using s rest by simp
      show ?thesis
      proof (cases "?r' = []")
        case True
        then have "\<forall>x \<in> set r. \<not> isAlnum x" by (simp add: dropWhile_eq_Nil_conv)
        then have "\<not> isAlnum (last (n # r))" using n last_in_set[of "n # r"] by auto
        moreover have "last s = last (n # r)" using s rest by simp
        ultimately have "trailing s = ''-''" using Cons by (simp add: trailing_def)
        moreover have "replaceRuns s = ?w @ ''-''" using runs' True by simp
        moreover have "joinDash (alnumWords s) = ?w" using words' True by simp
        ultimately show ?thesis by simp
      next
        case False
        with hd' have "isAlnum (hd ?r')" by blast
        then have ne: "alnumWords ?r' \<noteq> []" using False by (cases ?r') simp_all
        have "last s = last ((?w @ n # takeWhile (\<lambda>d. \<not> isAlnum d) r) @ ?r')"
          using split by (rule arg_cong)
        also have "\<dots> = last ?r'" using False by (rule last_appendR)
        finally have "last s = last ?r'" .
        then have "trailing s = trailing ?r'" using False Cons by (simp add: trailing_def)
        moreover have "joinDash (alnumWords s) = ?w @ ''-'' @ joinDash (alnumWords ?r')"
          using words' ne by (simp add: joinDash_Cons)
        ultimately show ?thesis using runs' ih by simp
      qed
    qed
  qed
qed

lemma replaceEdges_trailing:
  assumes "J = [] \<or> (hd J \<noteq> CHR ''-'' \<and> last J \<noteq> CHR ''-'')" and "t = [] \<or> t = ''-''"
  shows "replaceEdges (J @ t) = J"
proof (cases "J = []")
  case True
  with assms(2) show ?thesis by (auto simp: replaceEdges_def)
next
  case False
  with assms(1) have h: "hd J \<noteq> CHR ''-''" and l: "last J \<noteq> CHR ''-''" by simp_all
  from False obtain c cs where J: "J = c # cs" by (cases J) auto
  with h have c: "c \<noteq> CHR ''-''" by simp
  from assms(2) show ?thesis
  proof
    assume "t = []"
    then show ?thesis using J c l by (simp add: replaceEdges_def)
  next
    assume "t = ''-''"
    then show ?thesis using J c by (simp add: replaceEdges_def butlast_append)
  qed
qed

lemma joinDash_edges:
  "joinDash (alnumWords s) = []
     \<or> (hd (joinDash (alnumWords s)) \<noteq> CHR ''-'' \<and> last (joinDash (alnumWords s)) \<noteq> CHR ''-'')"
proof (cases "alnumWords s = []")
  case True
  then show ?thesis by simp
next
  case False
  from joinDash_last[OF _ False] alnumWords_good
  have "isAlnum (last (joinDash (alnumWords s)))" "isAlnum (hd (joinDash (alnumWords s)))"
    by blast+
  then show ?thesis using dash_not_alnum by metis
qed

lemma trailing_cases: "trailing s = [] \<or> trailing s = ''-''"
  by (simp add: trailing_def)

lemma replaceEdges_replaceRuns: "replaceEdges (replaceRuns s) = joinDash (alnumWords s)"
proof (cases "s = [] \<or> isAlnum (hd s)")
  case True
  then have "replaceRuns s = joinDash (alnumWords s) @ trailing s" by (rule replaceRuns_words)
  then show ?thesis
    using replaceEdges_trailing[OF joinDash_edges trailing_cases, of s s] by simp
next
  case False
  then obtain n cs where s: "s = n # cs" and n: "\<not> isAlnum n" by (cases s) auto
  let ?r = "dropWhile (\<lambda>d. \<not> isAlnum d) cs"
  have hd': "?r = [] \<or> isAlnum (hd ?r)" using hd_dropWhile[of "\<lambda>d. \<not> isAlnum d" cs] by auto
  have runs: "replaceRuns s = CHR ''-'' # replaceRuns ?r" using s n by simp
  have words: "alnumWords s = alnumWords ?r" using s n by (simp add: alnumWords_skip)
  have r: "replaceRuns ?r = joinDash (alnumWords ?r) @ trailing ?r"
    using hd' by (rule replaceRuns_words)
  let ?J = "joinDash (alnumWords ?r)"
  have strip: "(if ?J @ trailing ?r \<noteq> [] \<and> last (?J @ trailing ?r) = CHR ''-''
                then butlast (?J @ trailing ?r) else ?J @ trailing ?r) = ?J"
  proof (cases "trailing ?r = []")
    case True
    then show ?thesis using joinDash_edges[of ?r] by auto
  next
    case False
    with trailing_cases[of ?r] have "trailing ?r = ''-''" by simp
    then show ?thesis by (simp add: butlast_append)
  qed
  have "replaceEdges (replaceRuns s)
          = (if ?J @ trailing ?r \<noteq> [] \<and> last (?J @ trailing ?r) = CHR ''-''
             then butlast (?J @ trailing ?r) else ?J @ trailing ?r)"
    unfolding runs r by (simp add: replaceEdges_def Let_def)
  then show ?thesis using strip words by simp
qed

lemma generateSlug_specSlug: "generateSlug a b = specSlug a b"
  by (simp add: generateSlug_def specSlug_def Let_def replaceEdges_replaceRuns)

lemma joinDash_chars:
  assumes "\<forall>w \<in> set ws. w \<noteq> [] \<and> (\<forall>c \<in> set w. isAlnum c)"
  shows "\<forall>c \<in> set (joinDash ws). isAlnum c \<or> c = CHR ''-''"
  using assms by (induction ws rule: joinDash.induct) auto

lemma word_no_dashes:
  "\<forall>c \<in> set w. isAlnum c \<Longrightarrow> successively (\<lambda>x y. \<not> (x = CHR ''-'' \<and> y = CHR ''-'')) w"
proof (induction w)
  case Nil
  show ?case by simp
next
  case (Cons a w)
  then have "a \<noteq> CHR ''-''" using dash_not_alnum by auto
  with Cons show ?case by (simp add: successively_Cons)
qed

lemma joinDash_no_double:
  assumes "\<forall>w \<in> set ws. w \<noteq> [] \<and> (\<forall>c \<in> set w. isAlnum c)"
  shows "successively (\<lambda>x y. \<not> (x = CHR ''-'' \<and> y = CHR ''-'')) (joinDash ws)"
  using assms
proof (induction ws rule: joinDash.induct)
  case 1
  show ?case by simp
next
  case (2 w)
  then have "\<forall>c \<in> set w. isAlnum c" by simp
  then have "successively (\<lambda>x y. \<not> (x = CHR ''-'' \<and> y = CHR ''-'')) w" by (rule word_no_dashes)
  then show ?case by (simp only: joinDash.simps)
next
  case (3 w v ws)
  let ?Q = "\<lambda>x y. \<not> (x = CHR ''-'' \<and> y = CHR ''-'')"
  from 3(2) have w: "w \<noteq> []" "\<forall>c \<in> set w. isAlnum c"
    and rest: "\<forall>u \<in> set (v # ws). u \<noteq> [] \<and> (\<forall>c \<in> set u. isAlnum c)" by simp_all
  have ih: "successively ?Q (joinDash (v # ws))" using 3(1)[OF rest] .
  from joinDash_last[OF rest] have J: "joinDash (v # ws) \<noteq> []" "isAlnum (hd (joinDash (v # ws)))"
    by simp_all
  then have hdJ: "hd (joinDash (v # ws)) \<noteq> CHR ''-''" using dash_not_alnum by metis
  have "isAlnum (last w)" using w last_in_set[of w] by blast
  then have lastw: "last w \<noteq> CHR ''-''" using dash_not_alnum by metis
  have a: "successively ?Q w" using w(2) by (rule word_no_dashes)
  have b: "successively ?Q (CHR ''-'' # joinDash (v # ws))"
    using ih hdJ by (simp add: successively_Cons)
  have "joinDash (w # v # ws) = w @ (CHR ''-'' # joinDash (v # ws))" by simp
  moreover have "successively ?Q (w @ (CHR ''-'' # joinDash (v # ws)))"
    using a b lastw by (simp add: successively_append_iff)
  ultimately show ?case by (simp only:)
qed

lemma create_slug:
  assumes "create dto now st = Inr (saved, st')"
  shows "slug saved = Some (generateSlug (c_unitName dto) (c_unitNumber dto))"
    and "rows st' = rows st @ [saved]"
    and "viewCount saved = 0"
  using assms
  by (auto simp: create_def save_def repositoryCreate_def Let_def split: if_splits)

lemma update_slug:
  assumes "update i dto now st = Inr (found, st')"
  shows "map slug (rows st') = map slug (rows st)"
proof -
  from assms have st': "st' = updateWhereId i (updateColumns dto now) now st"
    by (auto simp: update_def Let_def split: if_splits)
  have "slug ((updateColumns dto now r)\<lparr> updatedAt := now \<rparr>) = slug r" for r
    by (simp add: updateColumns_def)
  then show ?thesis by (simp add: st' updateWhereId_def comp_def)
qed

text \<open>
  C8. The slug that \<open>generateSlug\<close> computes from a unit name and a unit number is the
  slug of the data model: the two joined by a dash, lower-cased, with each maximal run of
  non-alphanumeric characters turned into one dash and no dash at either end. It has
  letters, digits and dashes only, and no two dashes in a row. \<open>create\<close> stores the new
  record with this slug. \<open>update\<close> leaves the slug of every row as it was, whatever it
  changes.
\<close>

theorem slug_created_once:
  "generateSlug a b = specSlug a b
   \<and> (\<forall>c \<in> set (generateSlug a b). isAlnum c \<or> c = CHR ''-'')
   \<and> (generateSlug a b \<noteq> [] \<longrightarrow>
         hd (generateSlug a b) \<noteq> CHR ''-'' \<and> last (generateSlug a b) \<noteq> CHR ''-'')
   \<and> successively (\<lambda>x y. \<not> (x = CHR ''-'' \<and> y = CHR ''-'')) (generateSlug a b)
   \<and> (create cdto now st = Inr (saved, st') \<longrightarrow>
         rows st' = rows st @ [saved]
         \<and> slug saved = Some (specSlug (c_unitName cdto) (c_unitNumber cdto)))
   \<and> (update i udto now st = Inr (found, st'') \<longrightarrow> map slug (rows st'') = map slug (rows st))"
proof -
  let ?ws = "alnumWords (toLowerCase (a @ ''-'' @ b))"
  have eq: "generateSlug a b = specSlug a b" by (rule generateSlug_specSlug)
  have sp: "specSlug a b = joinDash ?ws" by (simp add: specSlug_def)
  have good: "\<forall>w \<in> set ?ws. w \<noteq> [] \<and> (\<forall>c \<in> set w. isAlnum c)"
    using alnumWords_good by blast
  have chars: "\<forall>c \<in> set (generateSlug a b). isAlnum c \<or> c = CHR ''-''"
    unfolding eq sp using good by (rule joinDash_chars)
  have edges: "generateSlug a b \<noteq> [] \<longrightarrow>
         hd (generateSlug a b) \<noteq> CHR ''-'' \<and> last (generateSlug a b) \<noteq> CHR ''-''"
    unfolding eq sp using joinDash_edges by blast
  have dbl: "successively (\<lambda>x y. \<not> (x = CHR ''-'' \<and> y = CHR ''-'')) (generateSlug a b)"
    unfolding eq sp using good by (rule joinDash_no_double)
  have cr: "create cdto now st = Inr (saved, st') \<longrightarrow>
         rows st' = rows st @ [saved]
         \<and> slug saved = Some (specSlug (c_unitName cdto) (c_unitNumber cdto))"
    using create_slug(1,2)[of cdto now st saved st'] by (simp add: generateSlug_specSlug)
  have up: "update i udto now st = Inr (found, st'') \<longrightarrow> map slug (rows st'') = map slug (rows st)"
    using update_slug by blast
  from eq chars edges dbl cr up show ?thesis by (intro conjI)
qed

text \<open>
  The apartment "Garden Loft", unit "G_7", gets the slug "garden-loft-g-7" and keeps it when
  it is renamed "Sky Loft", unit "S-1".
\<close>

theorem slug_created_once_witness:
  "\<not> isl (create gardenLoft 1 seeded)
   \<and> slug (fst (projr (create gardenLoft 1 seeded))) = Some ''garden-loft-g-7''
   \<and> generateSlug ''  Hello,, World!'' ''#7 '' = ''hello-world-7''
   \<and> \<not> isl (update 6 (noChanges\<lparr> u_unitName := Some ''Sky Loft'', u_unitNumber := Some ''S-1'' \<rparr>)
               2 seededWithLoft)
   \<and> map unitName (rows (snd (projr
         (update 6 (noChanges\<lparr> u_unitName := Some ''Sky Loft'', u_unitNumber := Some ''S-1'' \<rparr>)
            2 seededWithLoft))))
       = [''Luxury Studio A1'', ''Executive Suite B2'', ''Penthouse Premium'', ''Cozy One Bedroom'',
          ''Family Haven'', ''Sky Loft'']
   \<and> map slug (rows (snd (projr
         (update 6 (noChanges\<lparr> u_unitName := Some ''Sky Loft'', u_unitNumber := Some ''S-1'' \<rparr>)
            2 seededWithLoft))))
       = [Some ''luxury-studio-a1-a1-001'', Some ''executive-suite-b2-b2-105'',
          Some ''penthouse-premium-p1-001'', Some ''cozy-one-bedroom-c1-204'',
          Some ''family-haven-f2-301'', Some ''garden-loft-g-7'']"
proof -
  let ?u = "noChanges\<lparr> u_unitName := Some ''Sky Loft'', u_unitNumber := Some ''S-1'' \<rparr>"
  have c: "\<not> isl (create gardenLoft 1 seeded)" by code_simp
  then obtain saved st' where cr: "create gardenLoft 1 seeded = Inr (saved, st')"
    by (cases "create gardenLoft 1 seeded") auto
  have sp: "specSlug ''Garden Loft'' ''G_7'' = ''garden-loft-g-7''" by code_simp
  from slug_created_once[of _ _ gardenLoft 1 seeded saved st'] cr
  have "slug saved = Some (specSlug (c_unitName gardenLoft) (c_unitNumber gardenLoft))" by blast
  then have "slug saved = Some ''garden-loft-g-7''" by (simp add: sp gardenLoft_def)
  then have s1: "slug (fst (projr (create gardenLoft 1 seeded))) = Some ''garden-loft-g-7''"
    unfolding cr by simp
  from slug_created_once[of "''  Hello,, World!''" "''#7 ''"]
  have "generateSlug ''  Hello,, World!'' ''#7 '' = specSlug ''  Hello,, World!'' ''#7 ''" by blast
  moreover have "specSlug ''  Hello,, World!'' ''#7 '' = ''hello-world-7''" by code_simp
  ultimately have s2: "generateSlug ''  Hello,, World!'' ''#7 '' = ''hello-world-7''" by simp
  have u: "\<not> isl (update 6 ?u 2 seededWithLoft)" by code_simp
  then obtain found st'' where up: "update 6 ?u 2 seededWithLoft = Inr (found, st'')"
    by (cases "update 6 ?u 2 seededWithLoft") auto
  have names: "map unitName (rows (snd (projr (update 6 ?u 2 seededWithLoft))))
       = [''Luxury Studio A1'', ''Executive Suite B2'', ''Penthouse Premium'', ''Cozy One Bedroom'',
          ''Family Haven'', ''Sky Loft'']" by code_simp
  have before: "map slug (rows seededWithLoft)
       = [Some ''luxury-studio-a1-a1-001'', Some ''executive-suite-b2-b2-105'',
          Some ''penthouse-premium-p1-001'', Some ''cozy-one-bedroom-c1-204'',
          Some ''family-haven-f2-301'', Some ''garden-loft-g-7'']" by code_simp
  from slug_created_once[of _ _ _ 2 seededWithLoft _ _ 6 ?u found st''] up
  have "map slug (rows st'') = map slug (rows seededWithLoft)" by blast
  then have s3: "map slug (rows (snd (projr (update 6 ?u 2 seededWithLoft))))
       = [Some ''luxury-studio-a1-a1-001'', Some ''executive-suite-b2-b2-105'',
          Some ''penthouse-premium-p1-001'', Some ''cozy-one-bedroom-c1-204'',
          Some ''family-haven-f2-301'', Some ''garden-loft-g-7'']"
    unfolding up before by simp
  from c s1 s2 u names s3 show ?thesis by (intro conjI)
qed

end
